theory Spec2Isabelle
  imports Complex_Main
begin

section \<open>The Socket class of sockolate (src/index.ts) as a state machine\<close>

text \<open>
  The class is single threaded: every public method, transport callback and timer callback
  runs to completion. Each one is a function from the object's private fields (the record
  \<open>socket\<close>) to the updated fields. What the class does to its collaborators is kept in the
  same record: the events given to the emitter and the frames given to the transport are
  appended to \<open>trace\<close>, the timers given to the host's scheduler are in \<open>scheduled\<close>.

  JavaScript numbers are modelled by exact rationals, counters and lengths by naturals,
  \<open>Date.now()\<close> by an integer argument \<open>now\<close>.
\<close>

subsection \<open>Values\<close>

type_synonym number = rat

text \<open>An \<open>Error\<close> object, by its message.\<close>

datatype js_error = JsError string

fun message :: "js_error \<Rightarrow> string" where
  "message (JsError m) = m"

text \<open>The argument of \<open>abort(reason?: string | Error)\<close>.\<close>

datatype reason = NoReason | Message string | Failure js_error

text \<open>\<open>isError(reason)\<close>.\<close>

fun isError :: "reason \<Rightarrow> bool" where
  "isError (Failure e) = True"
| "isError r = False"

text \<open>\<open>new Error(reason)\<close> for a reason that is a string or absent.\<close>

fun newError :: "reason \<Rightarrow> js_error" where
  "newError NoReason = JsError []"
| "newError (Message m) = JsError m"
| "newError (Failure e) = JsError (message e)"

text \<open>
  Outgoing data (\<open>Out = any\<close>). Only its truthiness matters to the class; everything else
  is left to the parser.
\<close>

datatype payload =
    Undefined
  | Null
  | Bool bool
  | Num number
  | Str string
  | Obj "(string \<times> payload) list"

text \<open>The test \<open>if (data)\<close>.\<close>

fun truthy :: "payload \<Rightarrow> bool" where
  "truthy Undefined = False"
| "truthy Null = False"
| "truthy (Bool b) = b"
| "truthy (Num n) = (n \<noteq> 0)"
| "truthy (Str s) = (s \<noteq> [])"
| "truthy (Obj fs) = True"

text \<open>A parser \<open>(data: Out) => OutData\<close>; \<open>Inl\<close> is the exception it throws.\<close>

type_synonym parser = "payload \<Rightarrow> js_error + string"

text \<open>The data of an incoming \<open>MessageEvent\<close>.\<close>

type_synonym message = string

definition PingContent :: string where
  "PingContent = ''{\"type\":\"ping\"}''"

definition PongContent :: string where
  "PongContent = ''{\"type\":\"pong\"}''"

subsection \<open>Configuration\<close>

datatype binary_type = Blob | Arraybuffer

record buffer_config =
  buffer_max :: number
  buffer_min :: number

record ping_config =
  heartbeat :: number
  strict :: bool
  ping_timeout :: number

record retry_config =
  amount :: number
  delayFactor :: number
  maxDelay :: number
  minUpTime :: number
  onAbort :: bool
  startDelay :: number

text \<open>\<open>SocketConfig\<close>; \<open>buffer: false\<close> is \<open>None\<close>.\<close>

record socket_config =
  binary_opt :: binary_type
  buffer_opt :: "buffer_config option"
  immediate_opt :: bool
  ping_opt :: ping_config
  protocol_opt :: "string list"
  retry_opt :: retry_config
  timeout_opt :: number

definition DefaultOptions :: socket_config where
  "DefaultOptions =
     \<lparr>binary_opt = Blob,
      buffer_opt = Some \<lparr>buffer_max = 32, buffer_min = 0\<rparr>,
      immediate_opt = False,
      ping_opt = \<lparr>heartbeat = 5000, strict = True, ping_timeout = 5000\<rparr>,
      protocol_opt = [],
      retry_opt = \<lparr>amount = 0, delayFactor = 3 / 2, maxDelay = 30000, minUpTime = 500,
                   onAbort = False, startDelay = 1000\<rparr>,
      timeout_opt = 30000\<rparr>"

subsection \<open>Collaborators: transport, emitter, scheduler\<close>

datatype ready_state = CONNECTING | OPEN | CLOSING | CLOSED

text \<open>The numeric constants \<open>WebSocket.CONNECTING\<close> ... \<open>WebSocket.CLOSED\<close>.\<close>

fun ready_code :: "ready_state \<Rightarrow> nat" where
  "ready_code CONNECTING = 0"
| "ready_code OPEN = 1"
| "ready_code CLOSING = 2"
| "ready_code CLOSED = 3"

record websocket =
  ws_url :: string
  ws_protocol :: string
  ws_extensions :: string
  ws_readyState :: ready_state
  ws_binaryType :: binary_type

text \<open>The names of \<open>SocketEvent\<close>, with the value given to the handlers.\<close>

datatype event =
    EvPreConnect
  | EvOpen
  | EvData message
  | EvSend
  | EvClose
  | EvError js_error
  | EvAbort js_error
  | EvReconnect
  | EvPing
  | EvPong

text \<open>
  What leaves the object: an event given to the emitter, a call of one of the four primary
  callbacks (the constructor installs \<open>noop\<close> for each), a frame the transport transmits,
  the start of the transport's closing handshake, a new transport for a URL.
\<close>

datatype effect =
    Emit event
  | Callback event
  | Transmit string
  | WsClose
  | WsNew string

text \<open>The keys of \<open>Timers\<close>.\<close>

datatype timer_name = T_heartbeat | T_keepAlive | T_ping | T_retry

text \<open>The closures the class hands to \<open>setTimeout\<close> and \<open>setInterval\<close>.\<close>

datatype callback =
    KeepAliveExpired
  | PingExpired
  | BeatTick
  | BeatPingExpired
  | RetryExpired

record timer_handle =
  tid :: nat
  timer_callback :: callback
  delay :: number
  repeating :: bool

text \<open>The URL provider: a fixed URL, or a function of the retry count and the previous URL.\<close>

datatype url_provider =
    StaticUrl string
  | DynamicUrl "nat \<Rightarrow> string option \<Rightarrow> js_error + string"

subsection \<open>The private fields\<close>

text \<open>
  \<open>controller\<close> is \<open>Some aborted\<close> while an \<open>AbortController\<close> is stored. \<open>connected\<close> is
  only read through \<open>!!\<close>, so \<open>undefined\<close> is \<open>False\<close>. \<open>detached\<close> is the array the message
  callback captured in \<open>onData\<close>, from the moment \<open>#inBuffer\<close> is assigned a new array;
  \<open>None\<close> while both are the same array.
\<close>

record socket =
  abortListener :: bool
  binary :: binary_type
  closeCall :: bool
  connected :: bool
  controller :: "bool option"
  disconnectCall :: bool
  heartBeatRunning :: bool
  inBuffer :: "message list"
  detached :: "message list option"
  opts :: socket_config
  outBuffer :: "payload list"
  parser :: parser
  paused :: bool
  pingStart :: bool
  prevTimeStamp :: int
  prevUrl :: "string option"
  protocols :: "string list"
  retries :: nat
  retryCall :: bool
  timers :: "timer_name \<Rightarrow> timer_handle option"
  upTime :: int
  urlProvider :: url_provider
  ws :: "websocket option"
  trace :: "effect list"
  scheduled :: "timer_handle list"
  nextTid :: nat

text \<open>
  A call either returns or throws; the fields keep what was written before the throw.
\<close>

datatype outcome = Returns socket | Throws js_error socket

fun state_of :: "outcome \<Rightarrow> socket" where
  "state_of (Returns s) = s"
| "state_of (Throws e s) = s"

fun and_then :: "outcome \<Rightarrow> (socket \<Rightarrow> outcome) \<Rightarrow> outcome" where
  "and_then (Returns s) f = f s"
| "and_then (Throws e s) f = Throws e s"

definition emit :: "event \<Rightarrow> socket \<Rightarrow> socket" where
  "emit e s = s\<lparr>trace := trace s @ [Emit e]\<rparr>"

definition call_back :: "event \<Rightarrow> socket \<Rightarrow> socket" where
  "call_back e s = s\<lparr>trace := trace s @ [Callback e]\<rparr>"

text \<open>\<open>setTimeout\<close>, \<open>setInterval\<close> and \<open>clearTimeout\<close> of the host.\<close>

definition setTimeout :: "callback \<Rightarrow> number \<Rightarrow> socket \<Rightarrow> timer_handle \<times> socket" where
  "setTimeout c d s =
     (let h = \<lparr>tid = nextTid s, timer_callback = c, delay = d, repeating = False\<rparr>
      in (h, s\<lparr>scheduled := scheduled s @ [h], nextTid := Suc (nextTid s)\<rparr>))"

definition setInterval :: "callback \<Rightarrow> number \<Rightarrow> socket \<Rightarrow> timer_handle \<times> socket" where
  "setInterval c d s =
     (let h = \<lparr>tid = nextTid s, timer_callback = c, delay = d, repeating = True\<rparr>
      in (h, s\<lparr>scheduled := scheduled s @ [h], nextTid := Suc (nextTid s)\<rparr>))"

definition clearTimeout :: "timer_handle \<Rightarrow> socket \<Rightarrow> socket" where
  "clearTimeout h s = s\<lparr>scheduled := filter (\<lambda>k. tid k \<noteq> tid h) (scheduled s)\<rparr>"

text \<open>
  \<open>WebSocket.send\<close>: an exception while connecting, a transmitted frame while open, silently
  discarded afterwards. \<open>this.#ws!.send\<close> without a transport is a \<open>TypeError\<close>.
\<close>

definition ws_send :: "string \<Rightarrow> socket \<Rightarrow> outcome" where
  "ws_send d s =
     (case ws s of
        None \<Rightarrow> Throws (JsError ''TypeError'') s
      | Some w \<Rightarrow>
          (case ws_readyState w of
             CONNECTING \<Rightarrow> Throws (JsError ''InvalidStateError'') s
           | OPEN \<Rightarrow> Returns (s\<lparr>trace := trace s @ [Transmit d]\<rparr>)
           | CLOSING \<Rightarrow> Returns s
           | CLOSED \<Rightarrow> Returns s))"

text \<open>\<open>WebSocket.close()\<close>: starts the closing handshake unless it already began.\<close>

definition ws_close :: "socket \<Rightarrow> socket" where
  "ws_close s =
     (case ws s of
        None \<Rightarrow> s
      | Some w \<Rightarrow>
          (if ws_readyState w = CLOSING \<or> ws_readyState w = CLOSED then s
           else s\<lparr>ws := Some (w\<lparr>ws_readyState := CLOSING\<rparr>), trace := trace s @ [WsClose]\<rparr>))"

text \<open>
  \<open>new WebSocket(url, protocols)\<close>; \<open>reject\<close> gives the message of the exception for a URL
  the host refuses. The protocols offered only matter to the server's choice, which arrives
  with the open event.
\<close>

definition new_WebSocket :: "(string \<Rightarrow> string option) \<Rightarrow> string \<Rightarrow> js_error + websocket" where
  "new_WebSocket reject u =
     (case reject u of
        Some m \<Rightarrow> Inl (JsError m)
      | None \<Rightarrow> Inr \<lparr>ws_url = u, ws_protocol = [], ws_extensions = [],
                     ws_readyState = CONNECTING, ws_binaryType = Blob\<rparr>)"

subsection \<open>Private methods\<close>

text \<open>\<open>clearTimer(timer)\<close>. A stored handle is always truthy.\<close>

definition clearTimer :: "timer_name \<Rightarrow> socket \<Rightarrow> socket" where
  "clearTimer t s =
     (case timers s t of
        None \<Rightarrow> s
      | Some h \<Rightarrow> (clearTimeout h s)\<lparr>timers := (timers s)(t := None)\<rparr>)"

text \<open>
  \<open>flushTimers()\<close>. The loop runs over the keys the object has; the four names below are
  the only keys the class ever writes, and clearing a name that is not a key changes
  nothing.
\<close>

definition flushTimers :: "socket \<Rightarrow> socket" where
  "flushTimers s = fold clearTimer [T_heartbeat, T_keepAlive, T_ping, T_retry] s"

text \<open>\<open>this.#inBuffer = []\<close>: the field gets a new array, the captured one keeps its content.\<close>

definition resetInBuffer :: "socket \<Rightarrow> socket" where
  "resetInBuffer s =
     s\<lparr>detached := (case detached s of None \<Rightarrow> Some (inBuffer s) | Some c \<Rightarrow> Some c),
       inBuffer := []\<rparr>"

text \<open>\<open>cleanup()\<close>.\<close>

definition cleanup :: "socket \<Rightarrow> socket" where
  "cleanup s =
     (let s1 = flushTimers s
      in if retryCall s1 then s1\<lparr>retryCall := False\<rparr>
         else (resetInBuffer (s1\<lparr>outBuffer := []\<rparr>))\<lparr>retries := 0\<rparr>)"

text \<open>\<open>provideUrl()\<close>; a provider that throws leaves \<open>#prevUrl\<close> as it was.\<close>

definition provideUrl :: "socket \<Rightarrow> js_error + (string \<times> socket)" where
  "provideUrl s =
     (case urlProvider s of
        StaticUrl u \<Rightarrow> Inr (u, s\<lparr>prevUrl := Some u\<rparr>)
      | DynamicUrl f \<Rightarrow>
          (case f (retries s) (prevUrl s) of
             Inl e \<Rightarrow> Inl e
           | Inr u \<Rightarrow> Inr (u, s\<lparr>prevUrl := Some u\<rparr>)))"

text \<open>The getter \<open>active\<close>.\<close>

definition active :: "socket \<Rightarrow> bool" where
  "active s = (connected s \<and> \<not> paused s)"

text \<open>\<open>timestamp()\<close>: adds the time since the checkpoint and returns the new checkpoint.\<close>

definition timestamp :: "int \<Rightarrow> socket \<Rightarrow> int \<times> socket" where
  "timestamp now s = (now, s\<lparr>upTime := upTime s + (now - prevTimeStamp s)\<rparr>)"

text \<open>The getter \<open>uptime\<close>.\<close>

definition uptime :: "int \<Rightarrow> socket \<Rightarrow> int \<times> socket" where
  "uptime now s =
     (if active s
      then (let (next, s1) = timestamp now s; s2 = s1\<lparr>prevTimeStamp := next\<rparr>
            in (upTime s2, s2))
      else (upTime s, s))"

text \<open>
  \<open>shouldReconnect()\<close>. The merged retry options are never an empty object. \<open>&&\<close> reads
  \<open>uptime\<close> only when the tests before it hold.
\<close>

definition shouldReconnect :: "int \<Rightarrow> socket \<Rightarrow> bool \<times> socket" where
  "shouldReconnect now s =
     (if \<not> disconnectCall s \<and> of_nat (retries s) < amount (retry_opt (opts s))
      then (let (u, s1) = uptime now s in (of_int u \<ge> minUpTime (retry_opt (opts s)), s1))
      else (False, s))"

text \<open>\<open>startKATimer()\<close>.\<close>

definition startKATimer :: "socket \<Rightarrow> socket" where
  "startKATimer s =
     (let s1 = clearTimer T_keepAlive s
      in if timeout_opt (opts s1) > 0
         then (let (h, s2) = setTimeout KeepAliveExpired (timeout_opt (opts s1)) s1
               in s2\<lparr>timers := (timers s2)(T_keepAlive \<mapsto> h)\<rparr>)
         else s1)"

text \<open>\<open>syncInBuffer()\<close>.\<close>

definition syncInBuffer :: "socket \<Rightarrow> socket" where
  "syncInBuffer s =
     (case buffer_opt (opts s) of
        None \<Rightarrow> s
      | Some b \<Rightarrow>
          (if inBuffer s \<noteq> [] \<and> of_nat (length (inBuffer s)) > buffer_min b
           then resetInBuffer
                  (fold (\<lambda>e k. call_back (EvData e) (emit (EvData e) k)) (inBuffer s) s)
           else s))"

text \<open>One round of the loop of \<open>syncOutBuffer\<close>: parse, send, emit \<open>send\<close>.\<close>

definition sendParsed :: "payload \<Rightarrow> socket \<Rightarrow> outcome" where
  "sendParsed d s =
     (case parser s d of
        Inl e \<Rightarrow> Throws e s
      | Inr frame \<Rightarrow> and_then (ws_send frame s) (\<lambda>k. Returns (emit EvSend k)))"

text \<open>
  The loop \<open>for (let i = 0, max = min(bufferOpts.max, buffer.length); i < max; i++)\<close>. The
  bound \<open>m\<close> is at most the length, so \<open>i < length buf\<close> holds whenever \<open>i < m\<close> does.
\<close>

function sendBuffered :: "nat \<Rightarrow> number \<Rightarrow> payload list \<Rightarrow> socket \<Rightarrow> outcome" where
  "sendBuffered i m buf s =
     (if of_nat i < m \<and> i < length buf
      then and_then (sendParsed (buf ! i) s) (sendBuffered (Suc i) m buf)
      else Returns s)"
  by pat_completeness auto
termination
  by (relation "measure (\<lambda>(i, m, buf, s). length buf - i)") auto

text \<open>\<open>syncOutBuffer()\<close>.\<close>

definition syncOutBuffer :: "socket \<Rightarrow> outcome" where
  "syncOutBuffer s =
     (if ws s = None then Returns s
      else
        (case buffer_opt (opts s) of
           None \<Rightarrow> Returns s
         | Some b \<Rightarrow>
             (if outBuffer s \<noteq> [] \<and> of_nat (length (outBuffer s)) \<ge> buffer_min b
              then and_then
                     (sendBuffered 0 (min (buffer_max b) (of_nat (length (outBuffer s))))
                        (outBuffer s) s)
                     (\<lambda>k. Returns (k\<lparr>outBuffer := []\<rparr>))
              else Returns s)))"

text \<open>\<open>sync()\<close>.\<close>

definition sync :: "int \<Rightarrow> socket \<Rightarrow> outcome" where
  "sync now s =
     and_then (syncOutBuffer (syncInBuffer s))
       (\<lambda>k. Returns (k\<lparr>retryCall := False, prevTimeStamp := now\<rparr>))"

subsection \<open>Public methods\<close>

text \<open>\<open>disconnect()\<close>.\<close>

definition disconnect :: "socket \<Rightarrow> socket" where
  "disconnect s =
     (if ws s = None then s
      else
        (let s1 = ws_close (s\<lparr>disconnectCall := True, connected := False\<rparr>);
             s2 = s1\<lparr>ws := None\<rparr>;
             s3 = (if controller s2 \<noteq> None \<and> abortListener s2
                   then s2\<lparr>controller := None\<rparr> else s2)
         in cleanup s3))"

text \<open>\<open>reconnect()\<close>.\<close>

definition reconnect :: "socket \<Rightarrow> socket" where
  "reconnect s =
     (let retry = retry_opt (opts s)
      in if timers s T_retry \<noteq> None \<or> of_nat (retries s) \<ge> amount retry then s
         else
           (let s1 = clearTimer T_retry s;
                s2 = s1\<lparr>retries := Suc (retries s1)\<rparr>;
                s3 = s2\<lparr>retryCall := True\<rparr>;
                (h, s4) = setTimeout RetryExpired
                            (min (startDelay retry * (of_nat (retries s3 + 1) * delayFactor retry))
                               (maxDelay retry)) s3
            in s4\<lparr>timers := (timers s4)(T_retry \<mapsto> h)\<rparr>))"

text \<open>
  \<open>this.#controller?.abort(reason)\<close>: the first abort of a controller runs the listener that
  \<open>connect\<close> registered, which closes the transport of that attempt.
\<close>

definition controller_abort :: "socket \<Rightarrow> socket" where
  "controller_abort s =
     (case controller s of
        None \<Rightarrow> s
      | Some aborted \<Rightarrow> (if aborted then s else (ws_close s)\<lparr>controller := Some True\<rparr>))"

text \<open>
  \<open>abort(reason)\<close>. The method has the one parameter \<open>reason\<close>; a second argument of a call
  \<open>abort(reason, payload)\<close> is not read.
\<close>

definition abort :: "reason \<Rightarrow> payload option \<Rightarrow> socket \<Rightarrow> socket" where
  "abort r payload s =
     (let s1 = controller_abort s
      in if onAbort (retry_opt (opts s1)) then reconnect s1
         else emit (if isError r then EvError (newError r) else EvAbort (newError r)) s1)"

text \<open>\<open>connect()\<close>.\<close>

definition connect :: "(string \<Rightarrow> string option) \<Rightarrow> socket \<Rightarrow> socket" where
  "connect reject s =
     (let s1 = (if ws s \<noteq> None then disconnect s else s);
          s2 = emit EvPreConnect s1;
          failed = (\<lambda>e k. abort (Failure (JsError (''Error when trying to connect to server: ''
                                                     @ message e))) None k)
      in case provideUrl s2 of
           Inl e \<Rightarrow> failed e s2
         | Inr (u, s3) \<Rightarrow>
             (case new_WebSocket reject u of
                Inl e \<Rightarrow> failed e s3
              | Inr w \<Rightarrow>
                  s3\<lparr>ws := Some (w\<lparr>ws_binaryType := binary s3\<rparr>),
                     controller := Some False,
                     abortListener := True,
                     closeCall := False,
                     disconnectCall := False,
                     trace := trace s3 @ [WsNew u]\<rparr>))"

text \<open>\<open>pause()\<close>.\<close>

definition pause :: "socket \<Rightarrow> socket" where
  "pause s = clearTimer T_heartbeat (clearTimer T_ping (s\<lparr>paused := True\<rparr>))"

text \<open>\<open>ping()\<close>.\<close>

definition ping :: "socket \<Rightarrow> outcome" where
  "ping s =
     (let s1 = clearTimer T_ping s
      in if active s1 \<and> ws s1 \<noteq> None
         then and_then (ws_send PingContent (emit EvPing (s1\<lparr>pingStart := True\<rparr>)))
                (\<lambda>k. let (h, k1) = setTimeout PingExpired (ping_timeout (ping_opt (opts k))) k
                      in Returns (k1\<lparr>timers := (timers k1)(T_ping \<mapsto> h)\<rparr>))
         else Returns s1)"

text \<open>\<open>resume()\<close>.\<close>

definition resume :: "int \<Rightarrow> socket \<Rightarrow> outcome" where
  "resume now s =
     and_then (if paused s then sync now s else Returns s)
       (\<lambda>k. Returns (k\<lparr>paused := False\<rparr>))"

text \<open>
  \<open>send(data, parser)\<close>; a caller that gives no parser passes \<open>stringify\<close>. Whatever the
  \<open>try\<close> block throws goes to \<open>abort\<close>.
\<close>

definition send :: "payload \<Rightarrow> parser \<Rightarrow> socket \<Rightarrow> socket" where
  "send d p s =
     (if map_option ws_readyState (ws s) = Some OPEN \<and> \<not> paused s
      then
        (case and_then (syncOutBuffer (s\<lparr>parser := p\<rparr>))
                (\<lambda>k. if truthy d
                      then (case p d of
                              Inl e \<Rightarrow> Throws e k
                            | Inr frame \<Rightarrow> and_then (ws_send frame k) (\<lambda>k1. Returns (emit EvSend k1)))
                      else Returns k) of
           Returns k \<Rightarrow> k
         | Throws e k \<Rightarrow>
             abort (Failure (JsError (''Error sending message: '' @ message e))) None k)
      else
        (case buffer_opt (opts s) of
           None \<Rightarrow> s
         | Some b \<Rightarrow>
             (if truthy d \<and> of_nat (length (outBuffer s)) < buffer_max b
              then s\<lparr>outBuffer := outBuffer s @ [d]\<rparr>
              else s)))"

text \<open>The closure \<open>sendPing\<close> of \<open>startBeat\<close>; it is also what the interval runs.\<close>

definition sendPing :: "socket \<Rightarrow> outcome" where
  "sendPing s =
     and_then (ws_send PingContent (emit EvPing s))
       (\<lambda>k. let (h, k1) = setTimeout BeatPingExpired (ping_timeout (ping_opt (opts k))) k
             in Returns (k1\<lparr>timers := (timers k1)(T_ping \<mapsto> h)\<rparr>))"

text \<open>\<open>startBeat()\<close>.\<close>

definition startBeat :: "socket \<Rightarrow> outcome" where
  "startBeat s =
     (if active s \<and> ws s \<noteq> None \<and> \<not> pingStart s
      then (let s1 = clearTimer T_heartbeat (s\<lparr>heartBeatRunning := True\<rparr>);
                (h, s2) = setInterval BeatTick (heartbeat (ping_opt (opts s1))) s1
            in sendPing (s2\<lparr>timers := (timers s2)(T_heartbeat \<mapsto> h)\<rparr>))
      else Returns s)"

text \<open>\<open>stopBeat()\<close>.\<close>

definition stopBeat :: "socket \<Rightarrow> socket" where
  "stopBeat s = (clearTimer T_heartbeat s)\<lparr>heartBeatRunning := False\<rparr>"

subsection \<open>Getters\<close>

definition beating :: "socket \<Rightarrow> bool" where
  "beating s = heartBeatRunning s"

definition extensions :: "socket \<Rightarrow> string" where
  "extensions s = (case ws s of None \<Rightarrow> [] | Some w \<Rightarrow> ws_extensions w)"

definition protocol :: "socket \<Rightarrow> string" where
  "protocol s = (case ws s of None \<Rightarrow> [] | Some w \<Rightarrow> ws_protocol w)"

definition readyState :: "socket \<Rightarrow> nat" where
  "readyState s = (case ws s of None \<Rightarrow> ready_code CLOSED | Some w \<Rightarrow> ready_code (ws_readyState w))"

definition url :: "socket \<Rightarrow> string" where
  "url s = (case ws s of None \<Rightarrow> [] | Some w \<Rightarrow> ws_url w)"

subsection \<open>The callbacks wired to the transport\<close>

text \<open>
  The wrappers that the constructor builds with \<open>onOpen(noop)\<close>, \<open>onClose(noop)\<close>,
  \<open>onData(noop)\<close> and \<open>onError(noop)\<close>.
\<close>

definition openCallback :: "int \<Rightarrow> socket \<Rightarrow> outcome" where
  "openCallback now s =
     sync now (call_back EvOpen (emit EvOpen (startKATimer (s\<lparr>connected := True\<rparr>))))"

definition closeCallback :: "int \<Rightarrow> socket \<Rightarrow> socket" where
  "closeCallback now s =
     (if closeCall s then s
      else
        (let s1 = call_back EvClose (emit EvClose (clearTimer T_keepAlive (s\<lparr>closeCall := True\<rparr>)));
             (again, s2) = shouldReconnect now s1;
             s3 = (if again then reconnect s2 else s2)
         in s3\<lparr>connected := False\<rparr>))"

text \<open>\<open>inBuffer.push(event)\<close> on the array the message callback captured.\<close>

definition pushCaptured :: "message \<Rightarrow> number \<Rightarrow> socket \<Rightarrow> socket" where
  "pushCaptured m cap s =
     (case detached s of
        None \<Rightarrow>
          (if of_nat (length (inBuffer s)) < cap then s\<lparr>inBuffer := inBuffer s @ [m]\<rparr> else s)
      | Some c \<Rightarrow>
          (if of_nat (length c) < cap then s\<lparr>detached := Some (c @ [m])\<rparr> else s))"

text \<open>The message callback; with the \<open>noop\<close> handler nothing in its \<open>try\<close> block throws.\<close>

definition msgCallback :: "message \<Rightarrow> socket \<Rightarrow> socket" where
  "msgCallback m s =
     (if \<not> paused s
      then
        (let s1 = emit (EvData m) s;
             s2 = (if pingStart s1 \<or> (heartBeatRunning s1 \<and> m = PongContent)
                   then (clearTimer T_ping (emit EvPong s1))\<lparr>pingStart := False\<rparr>
                   else s1)
         in call_back (EvData m) (syncInBuffer s2))
      else
        (case buffer_opt (opts s) of
           None \<Rightarrow> s
         | Some b \<Rightarrow> pushCaptured m (buffer_max b) s))"

definition errCallback :: "js_error \<Rightarrow> int \<Rightarrow> socket \<Rightarrow> socket" where
  "errCallback e now s =
     (let s1 = call_back (EvError e) (emit (EvError e) (clearTimer T_keepAlive s));
          (again, s2) = shouldReconnect now s1
      in if again then reconnect s2 else s2)"

subsection \<open>The timer callbacks\<close>

definition fire :: "(string \<Rightarrow> string option) \<Rightarrow> callback \<Rightarrow> socket \<Rightarrow> outcome" where
  "fire reject c s =
     (case c of
        KeepAliveExpired \<Rightarrow> Returns (connect reject (disconnect s))
      | PingExpired \<Rightarrow>
          (if strict (ping_opt (opts s))
           then Returns (abort (Message ''Error: No response received on ping.'') None s)
           else Returns (disconnect s))
      | BeatTick \<Rightarrow> sendPing s
      | BeatPingExpired \<Rightarrow> startBeat (connect reject (disconnect s))
      | RetryExpired \<Rightarrow>
          (let s1 = emit EvReconnect s;
               s2 = (if ws s1 = None \<or> map_option ws_readyState (ws s1) = Some CLOSED
                     then connect reject s1
                     else connect reject (disconnect s1))
           in Returns (s2\<lparr>retryCall := False\<rparr>)))"

subsection \<open>Construction and the steps of an object's life\<close>

text \<open>
  \<open>new Socket(provider, options)\<close>, with \<open>options\<close> already merged onto the defaults and
  \<open>stringify\<close> the library's default parser.
\<close>

definition Socket ::
  "(string \<Rightarrow> string option) \<Rightarrow> parser \<Rightarrow> url_provider \<Rightarrow> socket_config \<Rightarrow> socket" where
  "Socket reject stringify provider options =
     (let s = \<lparr>abortListener = False, binary = binary_opt options, closeCall = False,
                connected = False, controller = None, disconnectCall = False,
                heartBeatRunning = False, inBuffer = [], detached = None, opts = options,
                outBuffer = [], parser = stringify, paused = False, pingStart = False,
                prevTimeStamp = 0, prevUrl = None, protocols = protocol_opt options,
                retries = 0, retryCall = False, timers = (\<lambda>t. None), upTime = 0,
                urlProvider = provider, ws = None, trace = [], scheduled = [], nextTid = 1\<rparr>
      in if immediate_opt options then connect reject s else s)"

text \<open>
  Everything that can happen to an object: a call of a public method, an event of its
  current transport, an event of a transport it already replaced, the expiry of a timer.
  The transport changes its own \<open>readyState\<close> before it calls back. Left out are \<open>on\<close>,
  \<open>off\<close> and the four setters of the primary callbacks (the handlers stay the ones the
  constructor installs), the setter of \<open>binary\<close> and the getter \<open>bufferedAmount\<close>.
\<close>

datatype action =
    Abort reason "payload option"
  | Connect
  | Disconnect
  | Pause
  | Ping
  | Reconnect
  | Resume
  | Send payload parser
  | StartBeat
  | StopBeat
  | Uptime
  | TransportOpen string string
  | TransportClose
  | TransportMessage message
  | TransportError js_error
  | StaleClose
  | Expire timer_handle

definition run :: "(string \<Rightarrow> string option) \<Rightarrow> int \<Rightarrow> action \<Rightarrow> socket \<Rightarrow> outcome" where
  "run reject now a s =
     (case a of
        Abort r p \<Rightarrow> Returns (abort r p s)
      | Connect \<Rightarrow> Returns (connect reject s)
      | Disconnect \<Rightarrow> Returns (disconnect s)
      | Pause \<Rightarrow> Returns (pause s)
      | Ping \<Rightarrow> ping s
      | Reconnect \<Rightarrow> Returns (reconnect s)
      | Resume \<Rightarrow> resume now s
      | Send d p \<Rightarrow> Returns (send d p s)
      | StartBeat \<Rightarrow> startBeat s
      | StopBeat \<Rightarrow> Returns (stopBeat s)
      | Uptime \<Rightarrow> Returns (snd (uptime now s))
      | TransportOpen proto ext \<Rightarrow>
          openCallback now
            (s\<lparr>ws := map_option (\<lambda>w. w\<lparr>ws_readyState := OPEN, ws_protocol := proto,
                                         ws_extensions := ext\<rparr>) (ws s)\<rparr>)
      | TransportClose \<Rightarrow>
          Returns (closeCallback now
            (s\<lparr>ws := map_option (\<lambda>w. w\<lparr>ws_readyState := CLOSED\<rparr>) (ws s)\<rparr>))
      | TransportMessage m \<Rightarrow> Returns (msgCallback m s)
      | TransportError e \<Rightarrow> Returns (errCallback e now s)
      | StaleClose \<Rightarrow> Returns (closeCallback now s)
      | Expire h \<Rightarrow>
          (if h \<in> set (scheduled s)
           then fire reject (timer_callback h) (if repeating h then s else clearTimeout h s)
           else Returns s))"

text \<open>A sequence of steps; a step that throws ends that step only.\<close>

fun runs :: "(string \<Rightarrow> string option) \<Rightarrow> (int \<times> action) list \<Rightarrow> socket \<Rightarrow> socket" where
  "runs reject [] s = s"
| "runs reject ((now, a) # as) s = runs reject as (state_of (run reject now a s))"

subsection \<open>Observations and example objects\<close>

text \<open>The frames the transport transmitted and the events the emitter was given, in order.\<close>

fun transmitted :: "effect list \<Rightarrow> string list" where
  "transmitted [] = []"
| "transmitted (Transmit d # es) = d # transmitted es"
| "transmitted (e # es) = transmitted es"

fun emitted :: "effect list \<Rightarrow> event list" where
  "emitted [] = []"
| "emitted (Emit e # es) = e # emitted es"
| "emitted (e # es) = emitted es"

text \<open>
  The objects of the test suite: a host that accepts every URL, a parser that sends strings
  as they are, a socket for the test server, and that socket once its transport is open.
\<close>

definition accept_all :: "string \<Rightarrow> string option" where
  "accept_all u = None"

definition plain :: parser where
  "plain d = (case d of Str frame \<Rightarrow> Inr frame | _ \<Rightarrow> Inr ''data'')"

definition fresh :: "socket_config \<Rightarrow> socket" where
  "fresh options = Socket accept_all plain (StaticUrl ''ws://localhost:50123/'') options"

definition opened :: "socket_config \<Rightarrow> socket" where
  "opened options = runs accept_all [(0, Connect), (0, TransportOpen [] [])] (fresh options)"

text \<open>The retry options of the tests, with room for \<open>n\<close> retries and a given cap.\<close>

definition retrying :: "number \<Rightarrow> number \<Rightarrow> socket_config" where
  "retrying n cap =
     DefaultOptions\<lparr>retry_opt := \<lparr>amount = n, delayFactor = 1, maxDelay = cap, minUpTime = 0,
                                   onAbort = False, startDelay = 100\<rparr>\<rparr>"

text \<open>The buffer options \<open>{ max: n }\<close> of the tests (\<open>min\<close> keeps its default).\<close>

definition buffering :: "number \<Rightarrow> socket_config" where
  "buffering n = DefaultOptions\<lparr>buffer_opt := Some \<lparr>buffer_max = n, buffer_min = 0\<rparr>\<rparr>"

text \<open>
  States of the test suite: the open socket after \<open>pause()\<close>, after \<open>disconnect()\<close>,
  after \<open>uptime\<close> was read one second after the open, and after \<open>ping()\<close>.
\<close>

definition paused_socket :: socket where
  "paused_socket = runs accept_all [(5, Pause)] (opened DefaultOptions)"

definition disconnected_socket :: socket where
  "disconnected_socket = runs accept_all [(5, Disconnect)] (opened DefaultOptions)"

definition timed_socket :: socket where
  "timed_socket = runs accept_all [(1000, Uptime)] (opened DefaultOptions)"

definition pinged_socket :: socket where
  "pinged_socket = runs accept_all [(1, Ping)] (opened DefaultOptions)"

text \<open>The open socket after \<open>startBeat()\<close>.\<close>

definition beating_socket :: socket where
  "beating_socket = runs accept_all [(1, StartBeat)] (opened DefaultOptions)"

text \<open>
  The test \<open>only buffers to a certain maximum capacity\<close>: one hundred different payloads
  for a paused socket with \<open>buffer: { max: 10 }\<close>.
\<close>

definition hundred :: "payload list" where
  "hundred = map (\<lambda>i. Str (replicate (Suc i) CHR ''x'')) [0..<100]"

definition paused_capped :: socket where
  "paused_capped = runs accept_all [(1, Pause)] (opened (buffering 10))"



text \<open>
  An open socket with room for three retries whose transport is closed by the server (which
  arms the retry timer) and which is given a payload afterwards; and the same with a
  \<open>pause()\<close> and a \<open>resume()\<close> before the payload.
\<close>

definition closed_case :: socket where
  "closed_case =
     runs accept_all [(10, TransportClose), (40, Send (Str ''a'') plain)]
       (opened (retrying 3 100))"


text \<open>
  A new socket with room for three retries after \<open>reconnect()\<close> and the expiry of the retry
  timer that it armed.
\<close>

definition expired_case :: socket where
  "expired_case =
     runs accept_all
       [(0, Reconnect),
        (100, Expire \<lparr>tid = 1, timer_callback = RetryExpired, delay = 100, repeating = False\<rparr>)]
       (fresh (retrying 3 100))"

section \<open>Properties\<close>

subsection \<open>Traces\<close>

lemma transmitted_append: "transmitted (xs @ ys) = transmitted xs @ transmitted ys"
  by (induction xs rule: transmitted.induct) simp_all

lemma emitted_append: "emitted (xs @ ys) = emitted xs @ emitted ys"
  by (induction xs rule: emitted.induct) simp_all

subsection \<open>Timers\<close>

lemma timers_clearTimer: "timers (clearTimer t s) = (timers s)(t := None)"
  by (auto simp: clearTimer_def clearTimeout_def split: option.splits)

lemma scheduled_clearTimer:
  "scheduled (clearTimer t s) =
     (case timers s t of
        None \<Rightarrow> scheduled s
      | Some h \<Rightarrow> filter (\<lambda>k. tid k \<noteq> tid h) (scheduled s))"
  by (simp add: clearTimer_def clearTimeout_def split: option.splits)

lemma clearTimer_fields:
  "outBuffer (clearTimer t s) = outBuffer s"
  "inBuffer (clearTimer t s) = inBuffer s"
  "detached (clearTimer t s) = detached s"
  "retries (clearTimer t s) = retries s"
  "retryCall (clearTimer t s) = retryCall s"
  "upTime (clearTimer t s) = upTime s"
  "prevTimeStamp (clearTimer t s) = prevTimeStamp s"
  "trace (clearTimer t s) = trace s"
  "ws (clearTimer t s) = ws s"
  "opts (clearTimer t s) = opts s"
  "paused (clearTimer t s) = paused s"
  "connected (clearTimer t s) = connected s"
  "pingStart (clearTimer t s) = pingStart s"
  "heartBeatRunning (clearTimer t s) = heartBeatRunning s"
  "controller (clearTimer t s) = controller s"
  "abortListener (clearTimer t s) = abortListener s"
  "parser (clearTimer t s) = parser s"
  "nextTid (clearTimer t s) = nextTid s"
  "disconnectCall (clearTimer t s) = disconnectCall s"
  by (simp_all add: clearTimer_def clearTimeout_def split: option.splits)



lemma flushTimers_fields:
  "outBuffer (flushTimers s) = outBuffer s"
  "inBuffer (flushTimers s) = inBuffer s"
  "detached (flushTimers s) = detached s"
  "retries (flushTimers s) = retries s"
  "retryCall (flushTimers s) = retryCall s"
  "upTime (flushTimers s) = upTime s"
  "trace (flushTimers s) = trace s"
  "ws (flushTimers s) = ws s"
  "opts (flushTimers s) = opts s"
  "heartBeatRunning (flushTimers s) = heartBeatRunning s"
  "controller (flushTimers s) = controller s"
  by (simp_all add: flushTimers_def clearTimer_fields)

lemma ws_close_fields:
  "outBuffer (ws_close s) = outBuffer s"
  "inBuffer (ws_close s) = inBuffer s"
  "retries (ws_close s) = retries s"
  "retryCall (ws_close s) = retryCall s"
  "upTime (ws_close s) = upTime s"
  "timers (ws_close s) = timers s"
  "scheduled (ws_close s) = scheduled s"
  "opts (ws_close s) = opts s"
  "heartBeatRunning (ws_close s) = heartBeatRunning s"
  "controller (ws_close s) = controller s"
  "abortListener (ws_close s) = abortListener s"
  "transmitted (trace (ws_close s)) = transmitted (trace s)"
  by (simp_all add: ws_close_def transmitted_append split: option.splits)

subsection \<open>Disconnecting\<close>

lemma disconnect_fields:
  "upTime (disconnect s) = upTime s"
  "opts (disconnect s) = opts s"
  "heartBeatRunning (disconnect s) = heartBeatRunning s"
  "ws (disconnect s) = None"
  by (auto simp: disconnect_def cleanup_def Let_def resetInBuffer_def flushTimers_fields
      ws_close_fields)


subsection \<open>Getters\<close>

text \<open>
  C9: while no transport is stored, \<open>readyState\<close> is \<open>WebSocket.CLOSED\<close> (the number 3) and
  \<open>extensions\<close>, \<open>protocol\<close> and \<open>url\<close> are the empty string. No transport is stored in a
  socket built without \<open>immediate\<close>, and none after \<open>disconnect()\<close>.
\<close>

theorem getters_without_transport:
  "(ws s = None \<longrightarrow>
      readyState s = ready_code CLOSED \<and> readyState s = 3
      \<and> extensions s = [] \<and> protocol s = [] \<and> url s = [])
   \<and> ws (disconnect s) = None
   \<and> (\<not> immediate_opt options \<longrightarrow> ws (Socket reject stringify provider options) = None)"
  by (simp add: readyState_def extensions_def protocol_def url_def disconnect_fields Socket_def)

theorem getters_without_transport_witness:
  "ws (fresh DefaultOptions) = None
   \<and> readyState (fresh DefaultOptions) = 3
   \<and> extensions (fresh DefaultOptions) = []
   \<and> protocol (fresh DefaultOptions) = []
   \<and> url (fresh DefaultOptions) = []
   \<and> ws (opened DefaultOptions) \<noteq> None
   \<and> readyState (disconnect (opened DefaultOptions)) = 3
   \<and> url (disconnect (opened DefaultOptions)) = []"
proof -
  have before: "ws (fresh DefaultOptions) = None"
    by code_simp
  have live: "ws (opened DefaultOptions) \<noteq> None"
    by code_simp
  show ?thesis
    using getters_without_transport [of "fresh DefaultOptions" DefaultOptions]
      getters_without_transport [of "disconnect (opened DefaultOptions)" DefaultOptions]
      getters_without_transport [of "opened DefaultOptions" DefaultOptions]
      before live
    by simp
qed

subsection \<open>Reconnecting\<close>

lemma reconnect_noop:
  "timers s T_retry \<noteq> None \<or> of_nat (retries s) \<ge> amount (retry_opt (opts s)) \<Longrightarrow>
   reconnect s = s"
  by (auto simp: reconnect_def Let_def)

lemma reconnect_eligible:
  assumes "timers s T_retry = None" and "of_nat (retries s) < amount (retry_opt (opts s))"
  shows "reconnect s =
     (let h = \<lparr>tid = nextTid s, timer_callback = RetryExpired,
                delay = min (startDelay (retry_opt (opts s))
                               * (of_nat (Suc (retries s) + 1) * delayFactor (retry_opt (opts s))))
                            (maxDelay (retry_opt (opts s))),
                repeating = False\<rparr>
      in s\<lparr>retries := Suc (retries s), retryCall := True,
           scheduled := scheduled s @ [h], nextTid := Suc (nextTid s),
           timers := (timers s)(T_retry \<mapsto> h)\<rparr>)"
  using assms
  by (simp add: reconnect_def Let_def clearTimer_def setTimeout_def not_le)

lemma reconnect_twice: "reconnect (reconnect s) = reconnect s"
proof (cases "timers s T_retry \<noteq> None \<or> of_nat (retries s) \<ge> amount (retry_opt (opts s))")
  case True
  then show ?thesis by (simp add: reconnect_noop)
next
  case False
  then have "timers (reconnect s) T_retry \<noteq> None"
    by (simp add: reconnect_eligible not_le Let_def)
  then show ?thesis by (simp add: reconnect_noop)
qed

lemma reconnect_funpow: "0 < n \<Longrightarrow> (reconnect ^^ n) s = reconnect s"
proof (induction n)
  case 0
  then show ?case by simp
next
  case (Suc n)
  show ?case
  proof (cases "n = 0")
    case True
    then show ?thesis by simp
  next
    case False
    with Suc show ?thesis by (simp add: reconnect_twice)
  qed
qed

lemma reconnect_fields:
  "trace (reconnect s) = trace s"
  "opts (reconnect s) = opts s"
  "upTime (reconnect s) = upTime s"
  "heartBeatRunning (reconnect s) = heartBeatRunning s"
  "outBuffer (reconnect s) = outBuffer s"
  "ws (reconnect s) = ws s"
  "paused (reconnect s) = paused s"
  by (simp_all add: reconnect_def Let_def clearTimer_fields setTimeout_def split: prod.splits)

text \<open>
  Where no retry handle is stored and the retry count is below \<open>amount\<close>, any positive
  number of calls in a row leaves the state that one call leaves: the retry count is one
  higher and exactly one timer, the retry timer, has been added to the scheduler.
\<close>

lemma reconnect_once:
  "(timers s T_retry \<noteq> None \<or> of_nat (retries s) \<ge> amount (retry_opt (opts s)) \<longrightarrow>
      reconnect s = s)
   \<and> (timers s T_retry = None \<and> of_nat (retries s) < amount (retry_opt (opts s)) \<longrightarrow>
        (\<forall>n > 0. (reconnect ^^ n) s = reconnect s
                 \<and> retries ((reconnect ^^ n) s) = retries s + 1
                 \<and> (\<exists>h. scheduled ((reconnect ^^ n) s) = scheduled s @ [h]
                         \<and> timers ((reconnect ^^ n) s) T_retry = Some h
                         \<and> timer_callback h = RetryExpired)))"
proof -
  have idle: "timers s T_retry \<noteq> None \<or> of_nat (retries s) \<ge> amount (retry_opt (opts s)) \<longrightarrow>
      reconnect s = s"
    using reconnect_noop by blast
  have once: "retries (reconnect s) = retries s + 1
       \<and> (\<exists>h. scheduled (reconnect s) = scheduled s @ [h]
               \<and> timers (reconnect s) T_retry = Some h \<and> timer_callback h = RetryExpired)"
    if "timers s T_retry = None" and "of_nat (retries s) < amount (retry_opt (opts s))"
    using that by (simp add: reconnect_eligible Let_def)
  show ?thesis
    using idle once by (simp add: reconnect_funpow)
qed

text \<open>The test \<open>prevents reconnect attempt spams\<close>: one hundred calls on a new socket.\<close>

lemma reconnect_once_example:
  "timers (fresh (retrying 1 100)) T_retry = None
   \<and> retries (fresh (retrying 1 100)) = 0
   \<and> retries ((reconnect ^^ 100) (fresh (retrying 1 100))) = 1
   \<and> length (scheduled ((reconnect ^^ 100) (fresh (retrying 1 100)))) = 1
   \<and> (reconnect ^^ 100) (fresh (retrying 1 100)) = reconnect (fresh (retrying 1 100))
   \<and> reconnect (reconnect (fresh (retrying 1 100))) = reconnect (fresh (retrying 1 100))"
proof -
  have a: "timers (fresh (retrying 1 100)) T_retry = None"
    and b: "of_nat (retries (fresh (retrying 1 100))) < amount (retry_opt (opts (fresh (retrying 1 100))))"
    and c: "retries (fresh (retrying 1 100)) = 0" "scheduled (fresh (retrying 1 100)) = []"
    by code_simp+
  have d: "timers (reconnect (fresh (retrying 1 100))) T_retry \<noteq> None"
    by code_simp
  have "\<forall>n > 0. (reconnect ^^ n) (fresh (retrying 1 100)) = reconnect (fresh (retrying 1 100))
                 \<and> retries ((reconnect ^^ n) (fresh (retrying 1 100))) = retries (fresh (retrying 1 100)) + 1
                 \<and> (\<exists>h. scheduled ((reconnect ^^ n) (fresh (retrying 1 100)))
                           = scheduled (fresh (retrying 1 100)) @ [h]
                         \<and> timers ((reconnect ^^ n) (fresh (retrying 1 100))) T_retry = Some h
                         \<and> timer_callback h = RetryExpired)"
    using reconnect_once [of "fresh (retrying 1 100)"] a b by blast
  then have "0 < (100::nat) \<longrightarrow>
       (reconnect ^^ 100) (fresh (retrying 1 100)) = reconnect (fresh (retrying 1 100))
                 \<and> retries ((reconnect ^^ 100) (fresh (retrying 1 100))) = retries (fresh (retrying 1 100)) + 1
                 \<and> (\<exists>h. scheduled ((reconnect ^^ 100) (fresh (retrying 1 100)))
                           = scheduled (fresh (retrying 1 100)) @ [h]
                         \<and> timers ((reconnect ^^ 100) (fresh (retrying 1 100))) T_retry = Some h
                         \<and> timer_callback h = RetryExpired)"
    by (rule spec)
  moreover have "0 < (100::nat)"
    by simp
  ultimately have hundred: "(reconnect ^^ 100) (fresh (retrying 1 100)) = reconnect (fresh (retrying 1 100))
                 \<and> retries ((reconnect ^^ 100) (fresh (retrying 1 100))) = retries (fresh (retrying 1 100)) + 1
                 \<and> (\<exists>h. scheduled ((reconnect ^^ 100) (fresh (retrying 1 100)))
                           = scheduled (fresh (retrying 1 100)) @ [h]
                         \<and> timers ((reconnect ^^ 100) (fresh (retrying 1 100))) T_retry = Some h
                         \<and> timer_callback h = RetryExpired)"
    by (rule mp)
  have again: "reconnect (reconnect (fresh (retrying 1 100))) = reconnect (fresh (retrying 1 100))"
    using reconnect_once [of "reconnect (fresh (retrying 1 100))"] d by blast
  show ?thesis
    using hundred again a c by auto
qed

lemma reconnect_funpow_noop: "reconnect s = s \<Longrightarrow> (reconnect ^^ n) s = s"
  by (induction n) simp_all

text \<open>
  C7: \<open>reconnect()\<close> tests whether a retry handle is stored, not whether a retry timer is
  pending: a stored handle makes any number of calls change nothing. Only \<open>clearTimer\<close>
  removes the handle, and the callback of the retry timer does not call it, so the handle
  of a timer that has fired keeps blocking.
\<close>

theorem reconnect_blocked_by_stored_handle:
  assumes "timers s T_retry \<noteq> None"
  shows "(reconnect ^^ n) s = s"
proof -
  have "reconnect s = s"
    using assms by (simp add: reconnect_noop)
  then show ?thesis
    by (rule reconnect_funpow_noop)
qed

text \<open>
  After \<open>reconnect()\<close> on a new socket and the expiry of its timer no retry timer is pending
  and the count, 1, is below \<open>amount\<close>, 3; one hundred calls of \<open>reconnect()\<close> neither raise
  the count nor arm a timer.
\<close>

theorem reconnect_blocked_by_stored_handle_witness:
  "scheduled expired_case = []
   \<and> retries expired_case = 1
   \<and> amount (retry_opt (opts expired_case)) = 3
   \<and> timers expired_case T_retry \<noteq> None
   \<and> retries ((reconnect ^^ 100) expired_case) = 1
   \<and> scheduled ((reconnect ^^ 100) expired_case) = []"
proof -
  have a: "timers expired_case T_retry \<noteq> None"
    and b: "scheduled expired_case = []" "retries expired_case = 1"
      "amount (retry_opt (opts expired_case)) = 3"
    by code_simp+
  show ?thesis
    using reconnect_blocked_by_stored_handle [OF a, of 100] a b by simp
qed

text \<open>
  C3: the delay that an eligible \<open>reconnect()\<close> arms is
  \<open>min(startDelay * ((n + 1) * delayFactor), maxDelay)\<close> with \<open>n\<close> the retry count after the
  increment: one more than the attempt number that the claim's formula uses.
\<close>

theorem reconnect_delay:
  assumes "timers s T_retry = None" and "of_nat (retries s) < amount (retry_opt (opts s))"
  shows "\<exists>h. timers (reconnect s) T_retry = Some h
           \<and> scheduled (reconnect s) = scheduled s @ [h]
           \<and> retries (reconnect s) = retries s + 1
           \<and> delay h = min (startDelay (retry_opt (opts s))
                              * (of_nat (retries (reconnect s) + 1) * delayFactor (retry_opt (opts s))))
                           (maxDelay (retry_opt (opts s)))"
  using assms by (simp add: reconnect_eligible Let_def)

text \<open>
  The first attempt with \<open>startDelay = 100\<close>, \<open>delayFactor = 1\<close>, \<open>maxDelay = 1000\<close>: the timer
  is armed with 200; the formula with the count after the increment gives 100. With
  \<open>maxDelay = 100\<close> the cap makes the armed delay 100.
\<close>

theorem reconnect_delay_witness:
  "timers (fresh (retrying 1 1000)) T_retry = None
   \<and> retries (fresh (retrying 1 1000)) = 0
   \<and> retries (reconnect (fresh (retrying 1 1000))) = 1
   \<and> map delay (scheduled (reconnect (fresh (retrying 1 1000)))) = [200]
   \<and> min (startDelay (retry_opt (retrying 1 1000))
            * (of_nat (retries (reconnect (fresh (retrying 1 1000))))
               * delayFactor (retry_opt (retrying 1 1000))))
          (maxDelay (retry_opt (retrying 1 1000))) = 100
   \<and> map delay (scheduled (reconnect (fresh (retrying 1 100)))) = [100]"
proof -
  have a: "timers (fresh (retrying 1 1000)) T_retry = None"
    and b: "of_nat (retries (fresh (retrying 1 1000)))
              < amount (retry_opt (opts (fresh (retrying 1 1000))))"
    and c: "retries (fresh (retrying 1 1000)) = 0" "scheduled (fresh (retrying 1 1000)) = []"
      "opts (fresh (retrying 1 1000)) = retrying 1 1000"
    and d: "map delay (scheduled (reconnect (fresh (retrying 1 100)))) = [100]"
    by code_simp+
  have e: "startDelay (retry_opt (retrying 1 1000)) = 100"
    "delayFactor (retry_opt (retrying 1 1000)) = 1"
    "maxDelay (retry_opt (retrying 1 1000)) = 1000"
    by (simp_all add: retrying_def)
  obtain h where h: "scheduled (reconnect (fresh (retrying 1 1000))) = [h]"
    "retries (reconnect (fresh (retrying 1 1000))) = 1"
    "delay h = min (100 * (of_nat (1 + 1) * 1)) 1000"
    using reconnect_delay [OF a b] by (auto simp: c e)
  then have "delay h = 200"
    by simp
  with h a c d e show ?thesis
    by simp
qed

subsection \<open>Disconnecting after reconnect()\<close>





text \<open>
  The retry timer that a server close armed expires with nothing in between: the transport
  is replaced, and the queued payload and the retry count are still there.
\<close>

lemma retry_cycle_keeps_queue:
  "retries closed_case = 1 \<and> outBuffer closed_case = [Str ''a'']
   \<and> scheduled closed_case
       = [\<lparr>tid = 2, timer_callback = RetryExpired, delay = 100, repeating = False\<rparr>]
   \<and> outBuffer (state_of (run accept_all 110
        (Expire \<lparr>tid = 2, timer_callback = RetryExpired, delay = 100, repeating = False\<rparr>)
        closed_case)) = [Str ''a'']
   \<and> retries (state_of (run accept_all 110
        (Expire \<lparr>tid = 2, timer_callback = RetryExpired, delay = 100, repeating = False\<rparr>)
        closed_case)) = 1"
  by code_simp

subsection \<open>Aborting\<close>

lemma controller_abort_fields:
  "opts (controller_abort s) = opts s"
  "transmitted (trace (controller_abort s)) = transmitted (trace s)"
  "emitted (trace (controller_abort s)) = emitted (trace s)"
  "upTime (controller_abort s) = upTime s"
  "heartBeatRunning (controller_abort s) = heartBeatRunning s"
  "outBuffer (controller_abort s) = outBuffer s"
  by (simp_all add: controller_abort_def ws_close_def transmitted_append emitted_append
      split: option.splits)

text \<open>
  C1: with \<open>onAbort\<close> unset, \<open>abort()\<close> gives the emitter one more event in every state, so
  also while the socket is paused and after a manual \<open>disconnect()\<close> has cleared the transport
  and the controller: \<open>error\<close> for a reason that is an \<open>Error\<close>, \<open>abort\<close> for a string or no
  reason. It is not a no-op there.
\<close>

theorem abort_always_signals:
  assumes "\<not> onAbort (retry_opt (opts s))"
  shows "emitted (trace (abort r p s)) =
           emitted (trace s) @ [if isError r then EvError (newError r) else EvAbort (newError r)]"
  using assms by (simp add: abort_def Let_def controller_abort_fields emit_def emitted_append)

text \<open>
  The test \<open>should not abort on pause\<close>: \<open>abort()\<close> on the paused socket, and on the socket
  after \<open>disconnect()\<close>.
\<close>

theorem abort_always_signals_witness:
  "paused paused_socket
   \<and> emitted (trace (abort NoReason None paused_socket))
       = emitted (trace paused_socket) @ [EvAbort (JsError [])]
   \<and> emitted (trace (abort (Failure (JsError ''boom'')) None paused_socket))
       = emitted (trace paused_socket) @ [EvError (JsError ''boom'')]
   \<and> transmitted (trace (abort NoReason None paused_socket)) = []
   \<and> map_option ws_readyState (ws (abort NoReason None paused_socket)) = Some CLOSING
   \<and> ws disconnected_socket = None \<and> controller disconnected_socket = None
   \<and> emitted (trace (abort NoReason None disconnected_socket))
       = emitted (trace disconnected_socket) @ [EvAbort (JsError [])]"
proof -
  have a: "\<not> onAbort (retry_opt (opts paused_socket))"
    and b: "\<not> onAbort (retry_opt (opts disconnected_socket))"
    and c: "paused paused_socket" "ws disconnected_socket = None"
      "controller disconnected_socket = None"
      "transmitted (trace (abort NoReason None paused_socket)) = []"
      "map_option ws_readyState (ws (abort NoReason None paused_socket)) = Some CLOSING"
    by code_simp+
  show ?thesis
    using abort_always_signals [OF a, of NoReason None]
      abort_always_signals [OF a, of "Failure (JsError ''boom'')" None]
      abort_always_signals [OF b, of NoReason None] c
    by simp
qed

text \<open>
  C2: \<open>abort\<close> transmits nothing, whatever the state, the reason and the second argument
  of the call: no control message reaches the remote peer.
\<close>

theorem abort_sends_no_payload:
  "transmitted (trace (abort r payload s)) = transmitted (trace s)"
  by (simp add: abort_def Let_def controller_abort_fields emit_def transmitted_append
      reconnect_fields)

text \<open>
  The test \<open>sends an abort signal with payload to the server to close the connection\<close>:
  \<open>abort('Test', { id: 123 })\<close> on the open socket only emits \<open>abort\<close>.
\<close>

theorem abort_sends_no_payload_witness:
  "map_option ws_readyState (ws (opened DefaultOptions)) = Some OPEN
   \<and> \<not> onAbort (retry_opt (opts (opened DefaultOptions)))
   \<and> transmitted (trace (abort (Message ''Test'') (Some (Obj [(''id'', Num 123)]))
                           (opened DefaultOptions))) = []
   \<and> emitted (trace (abort (Message ''Test'') (Some (Obj [(''id'', Num 123)]))
                           (opened DefaultOptions)))
       = emitted (trace (opened DefaultOptions)) @ [EvAbort (JsError ''Test'')]"
proof -
  have a: "map_option ws_readyState (ws (opened DefaultOptions)) = Some OPEN"
    and b: "\<not> onAbort (retry_opt (opts (opened DefaultOptions)))"
    and c: "transmitted (trace (opened DefaultOptions)) = []"
    and d: "emitted (trace (abort (Message ''Test'') (Some (Obj [(''id'', Num 123)]))
                           (opened DefaultOptions)))
       = emitted (trace (opened DefaultOptions)) @ [EvAbort (JsError ''Test'')]"
    by code_simp+
  show ?thesis
    using abort_sends_no_payload
      [of "Message ''Test''" "Some (Obj [(''id'', Num 123)])" "opened DefaultOptions"] a b c d
    by simp
qed

subsection \<open>Uptime\<close>

lemma cleanup_upTime: "upTime (cleanup s) = upTime s"
  by (simp add: cleanup_def Let_def resetInBuffer_def flushTimers_fields)

text \<open>
  C4, as stated, fails: one second of uptime is still there after a manual \<open>disconnect()\<close>
  of a socket whose reconnection flag is not set.
\<close>

theorem uptime_not_reset_counterexample:
  "ws timed_socket \<noteq> None \<and> \<not> retryCall timed_socket \<and> upTime timed_socket = 1000
   \<and> upTime (disconnect timed_socket) = 1000
   \<and> fst (uptime 2000 (disconnect timed_socket)) \<noteq> 0"
  by code_simp

text \<open>
  C4, amended: no disconnect resets the accumulated uptime. \<open>disconnect()\<close> and \<open>cleanup()\<close>
  leave it as it is, whether or not the reconnection flag is set, and the getter \<open>uptime\<close>
  read after a \<open>disconnect()\<close> that found a transport returns the value from before.
\<close>

theorem uptime_survives_disconnect:
  "upTime (disconnect s) = upTime s
   \<and> upTime (cleanup s) = upTime s
   \<and> (ws s \<noteq> None \<longrightarrow> uptime now (disconnect s) = (upTime s, disconnect s))"
proof -
  have "\<not> active (disconnect s)" if "ws s \<noteq> None"
    using that
    by (auto simp: active_def disconnect_def cleanup_def Let_def resetInBuffer_def
        flushTimers_def clearTimer_fields ws_close_def split: option.splits)
  then show ?thesis
    by (simp add: disconnect_fields cleanup_upTime uptime_def)
qed

theorem uptime_survives_disconnect_witness:
  "ws timed_socket \<noteq> None
   \<and> upTime timed_socket = 1000
   \<and> upTime (disconnect timed_socket) = 1000
   \<and> fst (uptime 2000 (disconnect timed_socket)) = 1000"
proof -
  have a: "ws timed_socket \<noteq> None" and b: "upTime timed_socket = 1000"
    by code_simp+
  show ?thesis
    using uptime_survives_disconnect [of timed_socket 2000] a b by simp
qed

subsection \<open>Pinging\<close>

lemma ping_inactive:
  "\<not> active s \<or> ws s = None \<Longrightarrow> ping s = Returns (clearTimer T_ping s)"
  by (auto simp: ping_def Let_def active_def clearTimer_fields)

lemma ping_active:
  assumes "active s" and "map_option ws_readyState (ws s) = Some OPEN"
  shows "ping s =
     Returns ((clearTimer T_ping s)
       \<lparr>pingStart := True,
        trace := trace s @ [Emit EvPing, Transmit PingContent],
        scheduled := scheduled (clearTimer T_ping s)
                     @ [\<lparr>tid = nextTid s, timer_callback = PingExpired,
                          delay = ping_timeout (ping_opt (opts s)), repeating = False\<rparr>],
        nextTid := Suc (nextTid s),
        timers := (timers s)(T_ping \<mapsto> \<lparr>tid = nextTid s, timer_callback = PingExpired,
                          delay = ping_timeout (ping_opt (opts s)), repeating = False\<rparr>)\<rparr>)"
proof -
  obtain w where w: "ws s = Some w" "ws_readyState w = OPEN"
    using assms(2) by (cases "ws s") auto
  define c where "c = clearTimer T_ping s"
  have c: "active c" "ws c = Some w" "trace c = trace s" "nextTid c = nextTid s"
    "opts c = opts s" "timers c = (timers s)(T_ping := None)"
    using assms(1) w by (simp_all add: c_def active_def clearTimer_fields timers_clearTimer)
  have sent: "ws_send PingContent (emit EvPing (c\<lparr>pingStart := True\<rparr>)) =
      Returns (c\<lparr>pingStart := True, trace := trace s @ [Emit EvPing, Transmit PingContent]\<rparr>)"
    by (simp add: ws_send_def emit_def c w)
  have "ping s =
      and_then (ws_send PingContent (emit EvPing (c\<lparr>pingStart := True\<rparr>)))
        (\<lambda>k. let (h, k1) = setTimeout PingExpired (ping_timeout (ping_opt (opts k))) k
              in Returns (k1\<lparr>timers := (timers k1)(T_ping \<mapsto> h)\<rparr>))"
    using c(1,2) by (simp add: ping_def c_def [symmetric])
  also have "\<dots> =
      Returns (c\<lparr>pingStart := True,
                trace := trace s @ [Emit EvPing, Transmit PingContent],
                scheduled := scheduled c
                     @ [\<lparr>tid = nextTid s, timer_callback = PingExpired,
                          delay = ping_timeout (ping_opt (opts s)), repeating = False\<rparr>],
                nextTid := Suc (nextTid s),
                timers := (timers s)(T_ping \<mapsto> \<lparr>tid = nextTid s, timer_callback = PingExpired,
                          delay = ping_timeout (ping_opt (opts s)), repeating = False\<rparr>)\<rparr>)"
    by (simp add: sent setTimeout_def Let_def c)
  finally show ?thesis
    by (simp add: c_def)
qed

text \<open>
  C5, as stated, fails: while a ping is awaiting its pong, a second \<open>ping()\<close> emits \<open>ping\<close>
  and sends the ping payload again, cancels the pending timeout and arms a new one.
\<close>

theorem ping_again_counterexample:
  "active pinged_socket \<and> pingStart pinged_socket \<and> timers pinged_socket T_ping \<noteq> None
   \<and> map tid (scheduled pinged_socket) = [1, 2]
   \<and> trace (state_of (ping pinged_socket))
       = trace pinged_socket @ [Emit EvPing, Transmit PingContent]
   \<and> map tid (scheduled (state_of (ping pinged_socket))) = [1, 3]"
  by code_simp

text \<open>
  C5, amended: when the connection is active and its transport open, \<open>ping()\<close> emits \<open>ping\<close>,
  sends the ping payload and arms a timeout of \<open>ping.timeout\<close>, whether or not a ping is
  already outstanding (the timeout of that one is cancelled). When the connection is not
  active, \<open>ping()\<close> emits nothing, sends nothing and arms nothing; it only drops a ping
  timer that was still stored.
\<close>

theorem ping_effect:
  "(active s \<and> map_option ws_readyState (ws s) = Some OPEN \<longrightarrow>
      (\<exists>k h. ping s = Returns k
         \<and> trace k = trace s @ [Emit EvPing, Transmit PingContent]
         \<and> pingStart k
         \<and> timers k T_ping = Some h \<and> h \<in> set (scheduled k)
         \<and> timer_callback h = PingExpired \<and> delay h = ping_timeout (ping_opt (opts s))
         \<and> (\<forall>old. timers s T_ping = Some old \<longrightarrow>
               scheduled k = filter (\<lambda>j. tid j \<noteq> tid old) (scheduled s) @ [h])))
   \<and> (\<not> active s \<longrightarrow>
        ping s = Returns (clearTimer T_ping s)
        \<and> trace (state_of (ping s)) = trace s
        \<and> set (scheduled (state_of (ping s))) \<subseteq> set (scheduled s)
        \<and> timers (state_of (ping s)) T_ping = None
        \<and> pingStart (state_of (ping s)) = pingStart s)"
proof -
  have idle: "ping s = Returns (clearTimer T_ping s)
        \<and> trace (state_of (ping s)) = trace s
        \<and> set (scheduled (state_of (ping s))) \<subseteq> set (scheduled s)
        \<and> timers (state_of (ping s)) T_ping = None
        \<and> pingStart (state_of (ping s)) = pingStart s" if "\<not> active s"
    using that
    by (auto simp: ping_inactive clearTimer_fields timers_clearTimer scheduled_clearTimer
        split: option.splits)
  have busy: "\<exists>k h. ping s = Returns k
         \<and> trace k = trace s @ [Emit EvPing, Transmit PingContent]
         \<and> pingStart k
         \<and> timers k T_ping = Some h \<and> h \<in> set (scheduled k)
         \<and> timer_callback h = PingExpired \<and> delay h = ping_timeout (ping_opt (opts s))
         \<and> (\<forall>old. timers s T_ping = Some old \<longrightarrow>
               scheduled k = filter (\<lambda>j. tid j \<noteq> tid old) (scheduled s) @ [h])"
    if "active s" and "map_option ws_readyState (ws s) = Some OPEN"
    using that by (simp add: ping_active scheduled_clearTimer)
  show ?thesis
    using idle busy by blast
qed

theorem ping_effect_witness:
  "active pinged_socket
   \<and> map_option ws_readyState (ws pinged_socket) = Some OPEN
   \<and> pingStart pinged_socket
   \<and> (\<exists>k. ping pinged_socket = Returns k
          \<and> trace k = trace pinged_socket @ [Emit EvPing, Transmit PingContent])
   \<and> \<not> active paused_socket
   \<and> trace (state_of (ping paused_socket)) = trace paused_socket
   \<and> \<not> active (fresh DefaultOptions)
   \<and> trace (state_of (ping (fresh DefaultOptions))) = trace (fresh DefaultOptions)"
proof -
  have a: "active pinged_socket" "map_option ws_readyState (ws pinged_socket) = Some OPEN"
    "pingStart pinged_socket" "\<not> active paused_socket" "\<not> active (fresh DefaultOptions)"
    by code_simp+
  show ?thesis
    using ping_effect [of pinged_socket] ping_effect [of paused_socket]
      ping_effect [of "fresh DefaultOptions"] a
    by auto
qed

subsection \<open>Sending\<close>

declare sendBuffered.simps [simp del]

lemma sendBuffered_step:
  "of_nat i < m \<Longrightarrow> i < length buf \<Longrightarrow>
   sendBuffered i m buf s = and_then (sendParsed (buf ! i) s) (sendBuffered (Suc i) m buf)"
  by (subst sendBuffered.simps) simp

lemma sendBuffered_stop:
  "\<not> (of_nat i < m \<and> i < length buf) \<Longrightarrow> sendBuffered i m buf s = Returns s"
  by (subst sendBuffered.simps) auto

lemma ws_send_frame: "state_of (ws_send d s) = s\<lparr>trace := trace (state_of (ws_send d s))\<rparr>"
  by (simp add: ws_send_def split: option.splits ready_state.splits)

lemma sendParsed_frame:
  "state_of (sendParsed d s) = s\<lparr>trace := trace (state_of (sendParsed d s))\<rparr>"
  by (cases "ws_send (projr (parser s d)) s")
     (auto simp: sendParsed_def emit_def ws_send_def
       split: sum.splits option.splits ready_state.splits)

lemma sendBuffered_frame:
  "state_of (sendBuffered i m buf s) = s\<lparr>trace := trace (state_of (sendBuffered i m buf s))\<rparr>"
proof (induction i m buf s rule: sendBuffered.induct)
  case (1 i m buf s)
  show ?case
  proof (cases "of_nat i < m \<and> i < length buf")
    case False
    then have "sendBuffered i m buf s = Returns s"
      by (rule sendBuffered_stop)
    then show ?thesis by simp
  next
    case True
    show ?thesis
    proof (cases "sendParsed (buf ! i) s")
      case (Returns k)
      have k: "k = s\<lparr>trace := trace k\<rparr>"
        using sendParsed_frame [of "buf ! i" s] Returns by simp
      have "state_of (sendBuffered (Suc i) m buf k)
            = k\<lparr>trace := trace (state_of (sendBuffered (Suc i) m buf k))\<rparr>"
        using "1.IH" [OF True] .
      then have "state_of (sendBuffered (Suc i) m buf k)
            = s\<lparr>trace := trace (state_of (sendBuffered (Suc i) m buf k))\<rparr>"
        by (subst (asm) (2) k) simp
      then show ?thesis
        using True Returns by (simp add: sendBuffered_step)
    next
      case (Throws e k)
      have k: "k = s\<lparr>trace := trace k\<rparr>"
        using sendParsed_frame [of "buf ! i" s] Throws by simp
      then show ?thesis
        using True Throws by (simp add: sendBuffered_step)
    qed
  qed
qed

lemma frame_fields:
  assumes "k = s\<lparr>trace := tr\<rparr>"
  shows "heartBeatRunning k = heartBeatRunning s" "outBuffer k = outBuffer s"
    "opts k = opts s" "paused k = paused s" "ws k = ws s" "parser k = parser s"
    "controller k = controller s" "retries k = retries s" "timers k = timers s"
    "inBuffer k = inBuffer s" "scheduled k = scheduled s" "connected k = connected s"
  using assms by simp_all

lemmas sendBuffered_fields = frame_fields [OF sendBuffered_frame]
lemmas ws_send_fields = frame_fields [OF ws_send_frame]

lemma fold_deliver:
  "fold (\<lambda>e k. call_back (EvData e) (emit (EvData e) k)) ms s =
     s\<lparr>trace := trace s @ concat (map (\<lambda>e. [Emit (EvData e), Callback (EvData e)]) ms)\<rparr>"
  by (induction ms arbitrary: s) (simp_all add: emit_def call_back_def)

lemma transmitted_deliver:
  "transmitted (concat (map (\<lambda>e. [Emit (EvData e), Callback (EvData e)]) ms)) = []"
  by (induction ms) simp_all

lemma syncInBuffer_fields:
  "heartBeatRunning (syncInBuffer s) = heartBeatRunning s"
  "outBuffer (syncInBuffer s) = outBuffer s"
  "opts (syncInBuffer s) = opts s"
  "ws (syncInBuffer s) = ws s"
  "parser (syncInBuffer s) = parser s"
  "paused (syncInBuffer s) = paused s"
  "transmitted (trace (syncInBuffer s)) = transmitted (trace s)"
  by (simp_all add: syncInBuffer_def resetInBuffer_def fold_deliver transmitted_append
      transmitted_deliver split: option.splits)

lemma syncOutBuffer_hb: "heartBeatRunning (state_of (syncOutBuffer s)) = heartBeatRunning s"
proof (cases "sendBuffered 0 (min (buffer_max (the (buffer_opt (opts s))))
                 (of_nat (length (outBuffer s)))) (outBuffer s) s")
  case (Returns k)
  then show ?thesis
    using sendBuffered_fields(1) [of 0 "min (buffer_max (the (buffer_opt (opts s))))
                 (of_nat (length (outBuffer s)))" "outBuffer s" s]
    by (auto simp: syncOutBuffer_def split: option.splits)
next
  case (Throws e k)
  then show ?thesis
    using sendBuffered_fields(1) [of 0 "min (buffer_max (the (buffer_opt (opts s))))
                 (of_nat (length (outBuffer s)))" "outBuffer s" s]
    by (auto simp: syncOutBuffer_def split: option.splits)
qed

lemma sync_hb: "heartBeatRunning (state_of (sync now s)) = heartBeatRunning s"
  using syncOutBuffer_hb [of "syncInBuffer s"]
  by (cases "syncOutBuffer (syncInBuffer s)") (simp_all add: sync_def syncInBuffer_fields)

lemma resume_hb: "heartBeatRunning (state_of (resume now s)) = heartBeatRunning s"
  using sync_hb [of now s]
  by (cases "sync now s") (simp_all add: resume_def)

lemma abort_hb: "heartBeatRunning (abort r p s) = heartBeatRunning s"
  by (simp add: abort_def Let_def reconnect_fields controller_abort_fields emit_def)

lemma connect_hb: "heartBeatRunning (connect reject s) = heartBeatRunning s"
  by (auto simp: connect_def Let_def provideUrl_def new_WebSocket_def abort_hb emit_def
      disconnect_fields split: sum.splits option.splits url_provider.splits prod.splits)

lemma pause_hb: "heartBeatRunning (pause s) = heartBeatRunning s"
  by (simp add: pause_def clearTimer_fields)

lemma ping_hb: "heartBeatRunning (state_of (ping s)) = heartBeatRunning s"
proof -
  have "heartBeatRunning (state_of (ws_send d k)) = heartBeatRunning k" for d k
    by (rule ws_send_fields)
  then show ?thesis
    by (cases "ws_send PingContent (emit EvPing (clearTimer T_ping s\<lparr>pingStart := True\<rparr>))")
       (auto simp: ping_def Let_def setTimeout_def clearTimer_fields emit_def
         dest!: arg_cong [where f = state_of])
qed

subsection \<open>The heartbeat flag\<close>

lemma send_hb: "heartBeatRunning (send d p s) = heartBeatRunning s"
proof (cases "map_option ws_readyState (ws s) = Some OPEN \<and> \<not> paused s")
  case False
  then show ?thesis
    by (auto simp: send_def split: option.splits)
next
  case True
  have sync: "heartBeatRunning (state_of (syncOutBuffer (s\<lparr>parser := p\<rparr>))) = heartBeatRunning s"
    using syncOutBuffer_hb [of "s\<lparr>parser := p\<rparr>"] by simp
  have sent: "heartBeatRunning (state_of (ws_send x k)) = heartBeatRunning k" for x k
    by (rule ws_send_fields)
  show ?thesis
  proof (cases "syncOutBuffer (s\<lparr>parser := p\<rparr>)")
    case (Throws e k)
    then show ?thesis
      using True sync by (simp add: send_def abort_hb)
  next
    case (Returns k)
    then have k: "heartBeatRunning k = heartBeatRunning s"
      using sync by simp
    show ?thesis
    proof (cases "truthy d")
      case False
      then show ?thesis
        using True Returns k by (simp add: send_def)
    next
      case truthy: True
      show ?thesis
      proof (cases "p d")
        case (Inl e)
        then show ?thesis
          using True Returns k truthy by (simp add: send_def abort_hb)
      next
        case (Inr frame)
        then show ?thesis
          using True Returns k truthy sent [of frame k]
          by (cases "ws_send frame k") (simp_all add: send_def abort_hb emit_def)
      qed
    qed
  qed
qed

lemma sendPing_hb: "heartBeatRunning (state_of (sendPing s)) = heartBeatRunning s"
proof -
  have "heartBeatRunning (state_of (ws_send d k)) = heartBeatRunning k" for d k
    by (rule ws_send_fields)
  from this [of PingContent "emit EvPing s"] show ?thesis
    by (cases "ws_send PingContent (emit EvPing s)")
       (simp_all add: sendPing_def Let_def setTimeout_def emit_def)
qed

lemma startBeat_hb: "heartBeatRunning s \<Longrightarrow> heartBeatRunning (state_of (startBeat s))"
  by (simp add: startBeat_def Let_def setInterval_def sendPing_hb clearTimer_fields)

lemma uptime_hb: "heartBeatRunning (snd (uptime now s)) = heartBeatRunning s"
  by (simp add: uptime_def timestamp_def Let_def)

lemma shouldReconnect_hb: "heartBeatRunning (snd (shouldReconnect now s)) = heartBeatRunning s"
  using uptime_hb [of now s]
  by (cases "uptime now s") (simp add: shouldReconnect_def)

lemma startKATimer_hb: "heartBeatRunning (startKATimer s) = heartBeatRunning s"
  by (simp add: startKATimer_def Let_def setTimeout_def clearTimer_fields)

lemma openCallback_hb: "heartBeatRunning (state_of (openCallback now s)) = heartBeatRunning s"
  by (simp add: openCallback_def sync_hb call_back_def emit_def startKATimer_hb)

lemma closeCallback_hb: "heartBeatRunning (closeCallback now s) = heartBeatRunning s"
  using shouldReconnect_hb
    [of now "call_back EvClose (emit EvClose (clearTimer T_keepAlive (s\<lparr>closeCall := True\<rparr>)))"]
  by (cases "shouldReconnect now
               (call_back EvClose (emit EvClose (clearTimer T_keepAlive (s\<lparr>closeCall := True\<rparr>))))")
     (simp add: closeCallback_def Let_def reconnect_fields call_back_def emit_def
       clearTimer_fields)

lemma errCallback_hb: "heartBeatRunning (errCallback e now s) = heartBeatRunning s"
  using shouldReconnect_hb
    [of now "call_back (EvError e) (emit (EvError e) (clearTimer T_keepAlive s))"]
  by (cases "shouldReconnect now
               (call_back (EvError e) (emit (EvError e) (clearTimer T_keepAlive s)))")
     (simp add: errCallback_def Let_def reconnect_fields call_back_def emit_def
       clearTimer_fields)

lemma msgCallback_hb: "heartBeatRunning (msgCallback m s) = heartBeatRunning s"
  by (simp add: msgCallback_def Let_def pushCaptured_def call_back_def emit_def
      syncInBuffer_fields clearTimer_fields split: option.splits)

lemma fire_hb: "heartBeatRunning s \<Longrightarrow> heartBeatRunning (state_of (fire reject c s))"
  by (cases c)
     (simp_all add: fire_def Let_def connect_hb disconnect_fields abort_hb sendPing_hb
       startBeat_hb emit_def)

lemma clearTimeout_hb: "heartBeatRunning (clearTimeout h s) = heartBeatRunning s"
  by (simp add: clearTimeout_def)

lemma run_hb:
  "heartBeatRunning s \<Longrightarrow> a \<noteq> StopBeat \<Longrightarrow> heartBeatRunning (state_of (run reject now a s))"
  by (cases a)
     (simp_all add: run_def abort_hb connect_hb disconnect_fields pause_hb ping_hb
       reconnect_fields resume_hb send_hb startBeat_hb uptime_hb openCallback_hb
       closeCallback_hb msgCallback_hb errCallback_hb fire_hb clearTimeout_hb)

text \<open>
  C10: \<open>pause()\<close> sets the paused flag and cancels the ping and the heartbeat timer (neither
  stays stored or scheduled), and leaves the heartbeat flag as it is, so \<open>beating\<close> is still
  true after pausing a socket whose heartbeat runs. \<open>stopBeat()\<close> makes \<open>beating\<close> false, and
  it is the only step that does: after any other method call, transport event or timer
  expiry on a socket with \<open>beating\<close> true, \<open>beating\<close> is true.
\<close>

theorem pause_keeps_beating:
  "paused (pause s)
   \<and> timers (pause s) T_ping = None \<and> timers (pause s) T_heartbeat = None
   \<and> (\<forall>h. timers s T_ping = Some h \<or> timers s T_heartbeat = Some h \<longrightarrow>
          tid h \<notin> tid ` set (scheduled (pause s)))
   \<and> beating (pause s) = beating s
   \<and> \<not> beating (stopBeat s)
   \<and> (\<forall>reject now a. beating s \<and> a \<noteq> StopBeat \<longrightarrow> beating (state_of (run reject now a s)))"
proof -
  have flag: "paused (pause s)"
    by (simp add: pause_def clearTimer_fields)
  have stored: "timers (pause s) T_ping = None \<and> timers (pause s) T_heartbeat = None"
    by (simp add: pause_def timers_clearTimer)
  have gone: "\<forall>h. timers s T_ping = Some h \<or> timers s T_heartbeat = Some h \<longrightarrow>
          tid h \<notin> tid ` set (scheduled (pause s))"
    by (auto simp: pause_def scheduled_clearTimer timers_clearTimer split: option.splits)
  have kept: "beating (pause s) = beating s"
    by (simp add: beating_def pause_hb)
  have stopped: "\<not> beating (stopBeat s)"
    by (simp add: beating_def stopBeat_def)
  have others: "\<forall>reject now a. beating s \<and> a \<noteq> StopBeat \<longrightarrow>
      beating (state_of (run reject now a s))"
    by (simp add: beating_def run_hb)
  from flag stored gone kept stopped others show ?thesis
    by blast
qed

theorem pause_keeps_beating_witness:
  "beating beating_socket
   \<and> timers beating_socket T_ping \<noteq> None \<and> timers beating_socket T_heartbeat \<noteq> None
   \<and> map tid (scheduled beating_socket) = [1, 2, 3]
   \<and> beating (pause beating_socket)
   \<and> timers (pause beating_socket) T_ping = None
   \<and> timers (pause beating_socket) T_heartbeat = None
   \<and> map tid (scheduled (pause beating_socket)) = [1]
   \<and> beating (state_of (run accept_all 2 Disconnect beating_socket))
   \<and> \<not> beating (stopBeat beating_socket)"
proof -
  have a: "beating beating_socket"
    "timers beating_socket T_ping \<noteq> None" "timers beating_socket T_heartbeat \<noteq> None"
    "map tid (scheduled beating_socket) = [1, 2, 3]"
    "map tid (scheduled (pause beating_socket)) = [1]"
    by code_simp+
  have b: "Disconnect \<noteq> StopBeat"
    by simp
  show ?thesis
    using pause_keeps_beating [of beating_socket] a b by blast
qed

subsection \<open>The outbound queue\<close>

lemma send_buffering:
  assumes "map_option ws_readyState (ws s) \<noteq> Some OPEN \<or> paused s"
  shows "send d p s =
     (if truthy d \<and> (\<exists>b. buffer_opt (opts s) = Some b
                          \<and> of_nat (length (outBuffer s)) < buffer_max b)
      then s\<lparr>outBuffer := outBuffer s @ [d]\<rparr> else s)"
proof -
  have closed: "\<not> (map_option ws_readyState (ws s) = Some OPEN \<and> \<not> paused s)"
    using assms by blast
  show ?thesis
    by (subst send_def, subst if_not_P [OF closed]) (auto split: option.splits)
qed

lemma syncOutBuffer_outBuffer:
  "outBuffer (state_of (syncOutBuffer s)) = [] \<or>
   outBuffer (state_of (syncOutBuffer s)) = outBuffer s"
proof (cases "buffer_opt (opts s)")
  case None
  then show ?thesis by (simp add: syncOutBuffer_def)
next
  case (Some b)
  show ?thesis
    using sendBuffered_fields(2)
      [of 0 "min (buffer_max b) (of_nat (length (outBuffer s)))" "outBuffer s" s] Some
    by (cases "sendBuffered 0 (min (buffer_max b) (of_nat (length (outBuffer s)))) (outBuffer s) s")
       (auto simp: syncOutBuffer_def)
qed

lemma syncOutBuffer_opts: "opts (state_of (syncOutBuffer s)) = opts s"
proof (cases "buffer_opt (opts s)")
  case None
  then show ?thesis by (simp add: syncOutBuffer_def)
next
  case (Some b)
  show ?thesis
    using sendBuffered_fields(3)
      [of 0 "min (buffer_max b) (of_nat (length (outBuffer s)))" "outBuffer s" s] Some
    by (cases "sendBuffered 0 (min (buffer_max b) (of_nat (length (outBuffer s)))) (outBuffer s) s")
       (auto simp: syncOutBuffer_def)
qed

lemma abort_fields:
  "outBuffer (abort r p s) = outBuffer s"
  "opts (abort r p s) = opts s"
  by (simp_all add: abort_def Let_def reconnect_fields controller_abort_fields emit_def)

lemma send_open_fields:
  assumes "map_option ws_readyState (ws s) = Some OPEN \<and> \<not> paused s"
  shows "opts (send d p s) = opts s"
    and "outBuffer (send d p s) = [] \<or> outBuffer (send d p s) = outBuffer s"
proof -
  define k where "k = state_of (syncOutBuffer (s\<lparr>parser := p\<rparr>))"
  have k: "opts k = opts s" "outBuffer k = [] \<or> outBuffer k = outBuffer s"
    using syncOutBuffer_opts [of "s\<lparr>parser := p\<rparr>"]
      syncOutBuffer_outBuffer [of "s\<lparr>parser := p\<rparr>"]
    by (simp_all add: k_def)
  have sent: "opts (state_of (ws_send x j)) = opts j"
    "outBuffer (state_of (ws_send x j)) = outBuffer j" for x j
    by (rule ws_send_fields)+
  have "opts (send d p s) = opts k \<and> outBuffer (send d p s) = outBuffer k"
  proof (cases "syncOutBuffer (s\<lparr>parser := p\<rparr>)")
    case (Throws e j)
    then show ?thesis
      using assms by (simp add: send_def abort_fields k_def)
  next
    case (Returns j)
    then have j: "j = k"
      by (simp add: k_def)
    show ?thesis
    proof (cases "truthy d")
      case False
      then show ?thesis
        using assms Returns j by (simp add: send_def)
    next
      case truthy: True
      show ?thesis
      proof (cases "p d")
        case (Inl e)
        then show ?thesis
          using assms Returns j truthy by (simp add: send_def abort_fields)
      next
        case (Inr frame)
        then show ?thesis
          using assms Returns j truthy sent [of frame k]
          by (cases "ws_send frame k") (simp_all add: send_def abort_fields emit_def)
      qed
    qed
  qed
  with k show "opts (send d p s) = opts s"
    and "outBuffer (send d p s) = [] \<or> outBuffer (send d p s) = outBuffer s"
    by auto
qed

lemma send_opts: "opts (send d p s) = opts s"
proof (cases "map_option ws_readyState (ws s) = Some OPEN \<and> \<not> paused s")
  case True
  then show ?thesis by (rule send_open_fields)
next
  case False
  then show ?thesis by (auto simp: send_buffering)
qed

lemma send_bounded:
  assumes "buffer_opt (opts s) = Some b"
    and "of_nat (length (outBuffer s)) < buffer_max b + 1"
  shows "of_nat (length (outBuffer (send d p s))) < buffer_max b + 1"
proof (cases "map_option ws_readyState (ws s) = Some OPEN \<and> \<not> paused s")
  case True
  have "(0::rat) \<le> of_nat (length (outBuffer s))"
    by simp
  with assms(2) have "0 < buffer_max b + 1"
    by linarith
  with send_open_fields(2) [OF True, of d p] assms(2) show ?thesis
    by auto
next
  case False
  then have "send d p s =
     (if truthy d \<and> (\<exists>b. buffer_opt (opts s) = Some b
                          \<and> of_nat (length (outBuffer s)) < buffer_max b)
      then s\<lparr>outBuffer := outBuffer s @ [d]\<rparr> else s)"
    by (intro send_buffering) blast
  then show ?thesis
    using assms by auto
qed

lemma sends_bounded:
  assumes "buffer_opt (opts s) = Some b"
    and "of_nat (length (outBuffer s)) < buffer_max b + 1"
  shows "of_nat (length (outBuffer (fold (\<lambda>(d, p). send d p) calls s))) < buffer_max b + 1"
  using assms
proof (induction calls arbitrary: s)
  case Nil
  then show ?case by simp
next
  case (Cons c calls)
  obtain d p where c: "c = (d, p)"
    by (cases c)
  have "buffer_opt (opts (send d p s)) = Some b"
    using Cons.prems(1) by (simp add: send_opts)
  moreover have "of_nat (length (outBuffer (send d p s))) < buffer_max b + 1"
    using Cons.prems by (rule send_bounded)
  ultimately show ?case
    using Cons.IH [of "send d p s"] c by simp
qed


lemma sends_paused:
  assumes "paused s" and "buffer_opt (opts s) = Some b" and "buffer_max b = of_nat n"
    and "\<forall>d \<in> set ds. truthy d"
  shows "fold (\<lambda>d. send d p) ds s =
           s\<lparr>outBuffer := outBuffer s @ take (n - length (outBuffer s)) ds\<rparr>"
  using assms
proof (induction ds arbitrary: s)
  case Nil
  then show ?case by simp
next
  case (Cons d ds)
  have step: "send d p s =
      (if length (outBuffer s) < n then s\<lparr>outBuffer := outBuffer s @ [d]\<rparr> else s)"
    using Cons.prems by (subst send_buffering) auto
  show ?case
  proof (cases "length (outBuffer s) < n")
    case True
    then have room: "n - length (outBuffer s) = Suc (n - Suc (length (outBuffer s)))"
      by simp
    have "fold (\<lambda>d. send d p) ds (s\<lparr>outBuffer := outBuffer s @ [d]\<rparr>) =
        (s\<lparr>outBuffer := outBuffer s @ [d]\<rparr>)
          \<lparr>outBuffer := outBuffer (s\<lparr>outBuffer := outBuffer s @ [d]\<rparr>)
             @ take (n - length (outBuffer (s\<lparr>outBuffer := outBuffer s @ [d]\<rparr>))) ds\<rparr>"
      using Cons.prems by (intro Cons.IH) simp_all
    then show ?thesis
      using True step by (simp add: room)
  next
    case False
    have "fold (\<lambda>d. send d p) ds s =
            s\<lparr>outBuffer := outBuffer s @ take (n - length (outBuffer s)) ds\<rparr>"
      using Cons.prems by (intro Cons.IH) simp_all
    then show ?thesis
      using False step by simp
  qed
qed

lemma sendParsed_open:
  assumes "ws s = Some w" and "ws_readyState w = OPEN" and "parser s d = Inr x"
  shows "sendParsed d s = Returns (s\<lparr>trace := trace s @ [Transmit x, Emit EvSend]\<rparr>)"
  using assms by (simp add: sendParsed_def ws_send_def emit_def)

lemma sendBuffered_open:
  assumes "ws s = Some w" and "ws_readyState w = OPEN"
    and "\<forall>d \<in> set buf. \<not> isl (parser s d)"
    and "k \<le> length buf"
  shows "sendBuffered i (of_nat k) buf s =
     Returns (s\<lparr>trace := trace s @ concat (map (\<lambda>d. [Transmit (projr (parser s d)), Emit EvSend])
                                              (take (k - i) (drop i buf)))\<rparr>)"
  using assms
proof (induction "k - i" arbitrary: i s)
  case 0
  then have "\<not> (of_nat i < (of_nat k :: rat) \<and> i < length buf)"
    by simp
  then have "sendBuffered i (of_nat k) buf s = Returns s"
    by (rule sendBuffered_stop)
  then show ?case
    using 0 by simp
next
  case (Suc j)
  then have i: "i < k" "i < length buf"
    by simp_all
  then have "\<not> isl (parser s (buf ! i))"
    using Suc.prems(3) by simp
  then obtain x where x: "parser s (buf ! i) = Inr x"
    by (cases "parser s (buf ! i)") simp_all
  define s1 where "s1 = s\<lparr>trace := trace s @ [Transmit x, Emit EvSend]\<rparr>"
  have one: "sendParsed (buf ! i) s = Returns s1"
    using Suc.prems(1,2) x by (simp add: sendParsed_open s1_def)
  have rest: "sendBuffered (Suc i) (of_nat k) buf s1 =
     Returns (s1\<lparr>trace := trace s1 @ concat (map (\<lambda>d. [Transmit (projr (parser s1 d)), Emit EvSend])
                                              (take (k - Suc i) (drop (Suc i) buf)))\<rparr>)"
    using Suc.hyps(2) Suc.prems by (intro Suc.hyps(1)) (simp_all add: s1_def)
  have split: "take (k - i) (drop i buf) = buf ! i # take (k - Suc i) (drop (Suc i) buf)"
    using i by (simp add: Cons_nth_drop_Suc [symmetric] Suc_diff_Suc [symmetric])
  have "sendBuffered i (of_nat k) buf s = sendBuffered (Suc i) (of_nat k) buf s1"
    using i one by (simp add: sendBuffered_step)
  then show ?case
    using rest x by (simp add: split s1_def)
qed

lemma transmitted_sent:
  "transmitted (concat (map (\<lambda>d. [Transmit (f d), Emit EvSend]) ds)) = map f ds"
  by (induction ds) simp_all

lemma syncOutBuffer_open:
  assumes "ws s = Some w" and "ws_readyState w = OPEN"
    and "buffer_opt (opts s) = Some b" and "buffer_min b = 0"
    and "buffer_max b = of_nat n"
    and "\<forall>d \<in> set (outBuffer s). \<not> isl (parser s d)"
  shows "\<exists>k. syncOutBuffer s = Returns k \<and> outBuffer k = []
           \<and> transmitted (trace k)
               = transmitted (trace s) @ map (\<lambda>d. projr (parser s d)) (take n (outBuffer s))"
proof (cases "outBuffer s = []")
  case True
  then show ?thesis
    using assms by (simp add: syncOutBuffer_def)
next
  case False
  have bound: "min (buffer_max b) (of_nat (length (outBuffer s)))
                 = (of_nat (min n (length (outBuffer s))) :: rat)"
    using assms(5) by (simp add: min_def)
  have "sendBuffered 0 (of_nat (min n (length (outBuffer s)))) (outBuffer s) s =
     Returns (s\<lparr>trace := trace s @ concat (map (\<lambda>d. [Transmit (projr (parser s d)), Emit EvSend])
                 (take (min n (length (outBuffer s)) - 0) (drop 0 (outBuffer s))))\<rparr>)"
    using assms(1,2,6) by (intro sendBuffered_open) simp_all
  moreover have "take (min n (length (outBuffer s))) (outBuffer s) = take n (outBuffer s)"
    by (simp add: min_def)
  ultimately show ?thesis
    using False assms(1,3,4) bound
    by (simp add: syncOutBuffer_def transmitted_append transmitted_sent)
qed

lemma resume_flushes:
  assumes "paused s" and "ws s = Some w" and "ws_readyState w = OPEN"
    and "buffer_opt (opts s) = Some b" and "buffer_min b = 0"
    and "buffer_max b = of_nat n"
    and "\<forall>d \<in> set (outBuffer s). \<not> isl (parser s d)"
  shows "\<exists>k. resume now s = Returns k \<and> outBuffer k = [] \<and> \<not> paused k
           \<and> transmitted (trace k)
               = transmitted (trace s) @ map (\<lambda>d. projr (parser s d)) (take n (outBuffer s))"
proof -
  obtain k where k: "syncOutBuffer (syncInBuffer s) = Returns k" "outBuffer k = []"
    "transmitted (trace k) = transmitted (trace (syncInBuffer s))
       @ map (\<lambda>d. projr (parser (syncInBuffer s) d)) (take n (outBuffer (syncInBuffer s)))"
    using syncOutBuffer_open [of "syncInBuffer s" w b n] assms
    by (auto simp: syncInBuffer_fields)
  then show ?thesis
    using assms(1) by (simp add: resume_def sync_def syncInBuffer_fields)
qed


text \<open>
  C8: a sequence of \<open>send()\<close> calls never makes the outbound queue longer than a whole-number
  \<open>buffer.max\<close> (for any \<open>max\<close>, never longer than \<open>max\<close> rounded up). While the transport is
  absent, not open or paused, \<open>send()\<close> appends a payload at the end of the queue only if the
  queue is shorter than \<open>max\<close>, and otherwise leaves every field as it is. After any number
  of payloads were sent to a paused socket with an open transport and \<open>buffer: { max: n }\<close>,
  \<open>resume()\<close> transmits the first \<open>n\<close> of them, in order, and nothing else.
\<close>

theorem outbound_queue_bounded:
  "(\<forall>b n. buffer_opt (opts s) = Some b \<and> buffer_max b = of_nat n \<and> length (outBuffer s) \<le> n \<longrightarrow>
       length (outBuffer (fold (\<lambda>(d, p). send d p) calls s)) \<le> n)
   \<and> (\<forall>b. buffer_opt (opts s) = Some b \<and> of_nat (length (outBuffer s)) < buffer_max b + 1 \<longrightarrow>
       of_nat (length (outBuffer (fold (\<lambda>(d, p). send d p) calls s))) < buffer_max b + 1)
   \<and> (map_option ws_readyState (ws s) \<noteq> Some OPEN \<or> paused s \<longrightarrow>
       send d p s =
         (if truthy d \<and> (\<exists>b. buffer_opt (opts s) = Some b
                              \<and> of_nat (length (outBuffer s)) < buffer_max b)
          then s\<lparr>outBuffer := outBuffer s @ [d]\<rparr> else s))
   \<and> (\<forall>b n. paused s \<and> map_option ws_readyState (ws s) = Some OPEN
           \<and> buffer_opt (opts s) = Some b \<and> buffer_min b = 0 \<and> buffer_max b = of_nat n
           \<and> outBuffer s = [] \<and> (\<forall>d \<in> set ds. truthy d \<and> \<not> isl (parser s d)) \<longrightarrow>
       (\<exists>k. resume now (fold (\<lambda>d. send d p) ds s) = Returns k \<and> outBuffer k = []
            \<and> transmitted (trace k)
                = transmitted (trace s) @ map (\<lambda>d. projr (parser s d)) (take n ds)))"
proof -
  have general: "of_nat (length (outBuffer (fold (\<lambda>(d, p). send d p) calls s))) < buffer_max b + 1"
    if "buffer_opt (opts s) = Some b" and "of_nat (length (outBuffer s)) < buffer_max b + 1" for b
    using that by (rule sends_bounded)
  have whole: "length (outBuffer (fold (\<lambda>(d, p). send d p) calls s)) \<le> n"
    if b: "buffer_opt (opts s) = Some b" and n: "buffer_max b = of_nat n"
      and le: "length (outBuffer s) \<le> n" for b n
  proof -
    have "length (outBuffer s) < Suc n"
      using le by simp
    then have "(of_nat (length (outBuffer s)) :: rat) < of_nat (Suc n)"
      by (simp only: of_nat_less_iff)
    then have "of_nat (length (outBuffer s)) < buffer_max b + 1"
      by (simp add: n)
    with b have "of_nat (length (outBuffer (fold (\<lambda>(d, p). send d p) calls s))) < buffer_max b + 1"
      by (rule general)
    then have "(of_nat (length (outBuffer (fold (\<lambda>(d, p). send d p) calls s))) :: rat)
                 < of_nat (Suc n)"
      by (simp add: n)
    then have "length (outBuffer (fold (\<lambda>(d, p). send d p) calls s)) < Suc n"
      by (simp only: of_nat_less_iff)
    then show ?thesis
      by simp
  qed
  have queue: "send d p s =
         (if truthy d \<and> (\<exists>b. buffer_opt (opts s) = Some b
                              \<and> of_nat (length (outBuffer s)) < buffer_max b)
          then s\<lparr>outBuffer := outBuffer s @ [d]\<rparr> else s)"
    if "map_option ws_readyState (ws s) \<noteq> Some OPEN \<or> paused s"
    using that by (rule send_buffering)
  have flush: "\<exists>k. resume now (fold (\<lambda>d. send d p) ds s) = Returns k \<and> outBuffer k = []
            \<and> transmitted (trace k)
                = transmitted (trace s) @ map (\<lambda>d. projr (parser s d)) (take n ds)"
    if p: "paused s" and o: "map_option ws_readyState (ws s) = Some OPEN"
      and b: "buffer_opt (opts s) = Some b" "buffer_min b = 0" "buffer_max b = of_nat n"
      and e: "outBuffer s = []" and d: "\<forall>d \<in> set ds. truthy d \<and> \<not> isl (parser s d)" for b n
  proof -
    obtain w where w: "ws s = Some w" "ws_readyState w = OPEN"
      using o by (cases "ws s") auto
    define q where "q = fold (\<lambda>d. send d p) ds s"
    have q: "q = s\<lparr>outBuffer := take n ds\<rparr>"
      using sends_paused [of s b n ds p] p b(1,3) d e by (simp add: q_def)
    have "\<forall>d \<in> set (outBuffer q). \<not> isl (parser q d)"
      using d by (auto simp: q dest: in_set_takeD)
    then have "\<exists>k. resume now q = Returns k \<and> outBuffer k = [] \<and> \<not> paused k
           \<and> transmitted (trace k)
               = transmitted (trace q) @ map (\<lambda>d. projr (parser q d)) (take n (outBuffer q))"
      using p w b by (intro resume_flushes [of q w b n now]) (simp_all add: q)
    then show ?thesis
      by (auto simp: q_def [symmetric]) (simp add: q)
  qed
  from whole general queue flush show ?thesis
    by blast
qed

text \<open>The hundred payloads of the test: ten are queued, and ten are transmitted on resume.\<close>

theorem outbound_queue_bounded_witness:
  "paused paused_capped
   \<and> length hundred = 100
   \<and> length (outBuffer (fold (\<lambda>(d, p). send d p) (map (\<lambda>d. (d, plain)) hundred) paused_capped)) \<le> 10
   \<and> outBuffer (fold (\<lambda>d. send d plain) hundred paused_capped) = take 10 hundred
   \<and> (\<exists>k. resume 2 (fold (\<lambda>d. send d plain) hundred paused_capped) = Returns k
          \<and> outBuffer k = []
          \<and> length (transmitted (trace k)) = 10
          \<and> transmitted (trace k) = map (\<lambda>i. replicate (Suc i) CHR ''x'') [0..<10])"
proof -
  have p: "paused paused_capped"
    and o: "map_option ws_readyState (ws paused_capped) = Some OPEN"
    and b: "buffer_opt (opts paused_capped) = Some \<lparr>buffer_max = 10, buffer_min = 0\<rparr>"
    and e: "outBuffer paused_capped = []"
    and d: "\<forall>d \<in> set hundred. truthy d \<and> \<not> isl (parser paused_capped d)"
    and t: "transmitted (trace paused_capped) = []"
    and m: "map (\<lambda>d. projr (parser paused_capped d)) (take 10 hundred)
              = map (\<lambda>i. replicate (Suc i) CHR ''x'') [0..<10]"
    and h: "length hundred = 100"
    and q: "outBuffer (fold (\<lambda>d. send d plain) hundred paused_capped) = take 10 hundred"
    by code_simp+
  have n: "buffer_max \<lparr>buffer_max = 10, buffer_min = 0\<rparr> = of_nat 10"
    "buffer_min \<lparr>buffer_max = 10, buffer_min = 0\<rparr> = 0"
    by simp_all
  note inst = outbound_queue_bounded
    [of paused_capped "map (\<lambda>d. (d, plain)) hundred" "Str ''x''" plain hundred 2]
  have first: "length (outBuffer (fold (\<lambda>(d, p). send d p) (map (\<lambda>d. (d, plain)) hundred)
                  paused_capped)) \<le> 10"
    using inst b n(1) e by (metis le0 list.size(3))
  have last: "\<exists>k. resume 2 (fold (\<lambda>d. send d plain) hundred paused_capped) = Returns k
          \<and> outBuffer k = []
          \<and> transmitted (trace k)
                = transmitted (trace paused_capped)
                  @ map (\<lambda>d. projr (parser paused_capped d)) (take 10 hundred)"
    using inst p o b n e d by blast
  show ?thesis
    using p h first q last by (auto simp: t m)
qed

end
